theory Spec2Isabelle
  imports Complex_Main "HOL-Library.Sublist"
begin

section \<open>Python strings\<close>

text \<open>
  A Python \<^verbatim>\<open>str\<close> is a sequence of Unicode code points, so it is modelled as a list of
  naturals. \<open>ustr\<close> turns an ASCII literal into such a string; the euro sign of the source
  is the code point U+20AC.
\<close>

type_synonym ustring = "nat list"

definition ustr :: "string \<Rightarrow> ustring" where
  "ustr s = map of_char s"

definition euro :: nat where
  "euro = 8364"

definition newline :: nat where
  "newline = 10"

definition carriage_return :: nat where
  "carriage_return = 13"

text \<open>\<^verbatim>\<open>str.isspace\<close> on one code point: the characters \<^verbatim>\<open>str.strip()\<close> removes.\<close>

definition is_space :: "nat \<Rightarrow> bool" where
  "is_space c \<longleftrightarrow>
     (9 \<le> c \<and> c \<le> 13) \<or> (28 \<le> c \<and> c \<le> 32) \<or> c = 133 \<or> c = 160 \<or> c = 5760 \<or>
     (8192 \<le> c \<and> c \<le> 8202) \<or> c = 8232 \<or> c = 8233 \<or> c = 8239 \<or> c = 8287 \<or> c = 12288"

definition strip :: "ustring \<Rightarrow> ustring" where
  "strip s = rev (dropWhile is_space (rev (dropWhile is_space s)))"

text \<open>
  \<^verbatim>\<open>s.replace(old, new)\<close>: the non-overlapping occurrences of \<open>old\<close> are replaced from
  left to right; an empty \<open>old\<close> matches before every character and at the end.
\<close>

function replace_from :: "ustring \<Rightarrow> ustring \<Rightarrow> ustring \<Rightarrow> ustring" where
  "replace_from old new [] = []"
| "replace_from old new (c # cs) =
     (if old \<noteq> [] \<and> prefix old (c # cs)
      then new @ replace_from old new (drop (length old) (c # cs))
      else c # replace_from old new cs)"
  by pat_completeness auto
termination
  by (relation "measure (\<lambda>(old, new, s). length s)") auto

definition replace :: "ustring \<Rightarrow> ustring \<Rightarrow> ustring \<Rightarrow> ustring" where
  "replace s old new =
     (if old = [] then new @ concat (map (\<lambda>c. c # new) s) else replace_from old new s)"

text \<open>\<^verbatim>\<open>sub in s\<close> on strings: \<open>sub\<close> occurs as a contiguous block of \<open>s\<close>.\<close>

fun contains :: "ustring \<Rightarrow> ustring \<Rightarrow> bool" where
  "contains sub [] \<longleftrightarrow> sub = []"
| "contains sub (c # cs) \<longleftrightarrow> prefix sub (c # cs) \<or> contains sub cs"

text \<open>Decimal digits of a natural number, as \<^verbatim>\<open>str(n)\<close> prints them.\<close>

function show_nat :: "nat \<Rightarrow> ustring" where
  "show_nat n = (if n < 10 then [48 + n] else show_nat (n div 10) @ [48 + n mod 10])"
  by pat_completeness auto
termination
  by (relation "measure id") auto

definition zfill :: "nat \<Rightarrow> ustring \<Rightarrow> ustring" where
  "zfill w s = replicate (w - length s) 48 @ s"

section \<open>Python floats\<close>

text \<open>
  A Python \<^verbatim>\<open>float\<close> is an IEEE 754 binary64 value. A finite value is kept as the
  rational it denotes (\<open>Fin 0\<close> is \<^verbatim>\<open>0.0\<close>), the negative zero, the infinities and
  not-a-number are constructors of their own. Every operation computes its exact rational
  result and rounds it to the nearest binary64 value, ties to even, as the hardware does.
\<close>

datatype pyfloat = Fin rat | NegZero | PInf | NInf | NaN

text \<open>The number of base-\<open>b\<close> digits of \<open>n\<close> (none for \<open>0\<close>).\<close>

function digit_count :: "nat \<Rightarrow> nat \<Rightarrow> nat" where
  "digit_count b n = (if n = 0 \<or> b < 2 then 0 else Suc (digit_count b (n div b)))"
  by pat_completeness auto
termination
  by (relation "measure snd") auto

text \<open>\<open>ilog b x\<close> is \<open>\<lfloor>log\<^sub>b x\<rfloor>\<close> for a positive rational \<open>x\<close>.\<close>

definition ilog :: "nat \<Rightarrow> rat \<Rightarrow> int" where
  "ilog b x =
     (if 1 \<le> x then int (digit_count b (nat \<lfloor>x\<rfloor>)) - 1
      else - int (digit_count b (nat (\<lceil>1 / x\<rceil> - 1))))"

definition pow_i :: "nat \<Rightarrow> int \<Rightarrow> rat" where
  "pow_i b e = (if 0 \<le> e then of_nat b ^ nat e else 1 / of_nat b ^ nat (- e))"

text \<open>Rounding a non-negative rational to the nearest integer, ties to the even one.\<close>

definition round_half_even :: "rat \<Rightarrow> int" where
  "round_half_even r =
     (let f = \<lfloor>r\<rfloor>; d = r - of_int f
      in if d < 1 / 2 then f else if 1 / 2 < d then f + 1 else if even f then f else f + 1)"

text \<open>
  The binary64 magnitude nearest to a positive rational: 53 significant bits, the smallest
  quantum \<open>2\<^sup>-\<^sup>1\<^sup>0\<^sup>7\<^sup>4\<close> (subnormals), \<open>None\<close> on overflow past the largest finite value.
\<close>

definition rnd_mag :: "rat \<Rightarrow> rat option" where
  "rnd_mag a =
     (let q = max (ilog 2 a - 52) (- 1074);
          v = of_int (round_half_even (a / pow_i 2 q)) * pow_i 2 q
      in if pow_i 2 1024 \<le> v then None else Some v)"

definition rnd64 :: "rat \<Rightarrow> pyfloat" where
  "rnd64 x =
     (if x = 0 then Fin 0
      else case rnd_mag \<bar>x\<bar> of
             None \<Rightarrow> (if x < 0 then NInf else PInf)
           | Some v \<Rightarrow> (if v = 0 then (if x < 0 then NegZero else Fin 0)
                        else Fin (if x < 0 then - v else v)))"

fun f_negative :: "pyfloat \<Rightarrow> bool" where
  "f_negative (Fin x) \<longleftrightarrow> x < 0"
| "f_negative NegZero \<longleftrightarrow> True"
| "f_negative NInf \<longleftrightarrow> True"
| "f_negative _ \<longleftrightarrow> False"

fun f_is_zero :: "pyfloat \<Rightarrow> bool" where
  "f_is_zero (Fin x) \<longleftrightarrow> x = 0"
| "f_is_zero NegZero \<longleftrightarrow> True"
| "f_is_zero _ \<longleftrightarrow> False"

fun f_is_inf :: "pyfloat \<Rightarrow> bool" where
  "f_is_inf PInf \<longleftrightarrow> True"
| "f_is_inf NInf \<longleftrightarrow> True"
| "f_is_inf _ \<longleftrightarrow> False"

text \<open>The rational a finite float denotes.\<close>

fun f_val :: "pyfloat \<Rightarrow> rat" where
  "f_val (Fin x) = x"
| "f_val _ = 0"

text \<open>\<^verbatim>\<open>x * y\<close> on floats.\<close>

definition f_mul :: "pyfloat \<Rightarrow> pyfloat \<Rightarrow> pyfloat" where
  "f_mul x y =
     (if x = NaN \<or> y = NaN then NaN
      else if f_is_inf x \<or> f_is_inf y then
        (if f_is_zero x \<or> f_is_zero y then NaN
         else if f_negative x = f_negative y then PInf else NInf)
      else if f_is_zero x \<or> f_is_zero y then
        (if f_negative x = f_negative y then Fin 0 else NegZero)
      else rnd64 (f_val x * f_val y))"

text \<open>\<^verbatim>\<open>x - y\<close> on floats.\<close>

definition f_sub :: "pyfloat \<Rightarrow> pyfloat \<Rightarrow> pyfloat" where
  "f_sub x y =
     (if x = NaN \<or> y = NaN then NaN
      else if f_is_inf x then (if x = y then NaN else x)
      else if f_is_inf y then (if y = PInf then NInf else PInf)
      else if f_val x - f_val y = 0 then (if x = NegZero \<and> y = Fin 0 then NegZero else Fin 0)
      else rnd64 (f_val x - f_val y))"

text \<open>\<^verbatim>\<open>abs(x)\<close>.\<close>

fun f_abs :: "pyfloat \<Rightarrow> pyfloat" where
  "f_abs (Fin x) = Fin \<bar>x\<bar>"
| "f_abs NegZero = Fin 0"
| "f_abs PInf = PInf"
| "f_abs NInf = PInf"
| "f_abs NaN = NaN"

text \<open>\<^verbatim>\<open>x >= t\<close> for a float \<open>x\<close> and an integer \<open>t\<close>: Python compares the exact values.\<close>

fun f_ge_int :: "pyfloat \<Rightarrow> int \<Rightarrow> bool" where
  "f_ge_int (Fin x) t \<longleftrightarrow> of_int t \<le> x"
| "f_ge_int NegZero t \<longleftrightarrow> t \<le> 0"
| "f_ge_int PInf t \<longleftrightarrow> True"
| "f_ge_int NInf t \<longleftrightarrow> False"
| "f_ge_int NaN t \<longleftrightarrow> False"

text \<open>\<^verbatim>\<open>x != y\<close>: not-a-number differs from everything, the two zeros are equal.\<close>

definition f_ne :: "pyfloat \<Rightarrow> pyfloat \<Rightarrow> bool" where
  "f_ne x y \<longleftrightarrow>
     (if x = NaN \<or> y = NaN then True
      else if f_is_inf x \<or> f_is_inf y then x \<noteq> y
      else f_val x \<noteq> f_val y)"

text \<open>The truth value of a float: false exactly for the two zeros.\<close>

definition f_truthy :: "pyfloat \<Rightarrow> bool" where
  "f_truthy x \<longleftrightarrow> \<not> f_is_zero x"

text \<open>
  \<^verbatim>\<open>round(x, 2)\<close>: CPython prints the exact value of \<open>x\<close> with two digits after the point,
  correctly rounded (ties to even), and reads that decimal back as a float. A non-finite
  \<open>x\<close> and a zero are returned as they are.
\<close>

definition round2 :: "pyfloat \<Rightarrow> pyfloat" where
  "round2 x =
     (case x of
        Fin v \<Rightarrow>
          (let r = of_int (round_half_even (\<bar>v\<bar> * 100)) / 100
           in if v < 0 then (if r = 0 then NegZero else rnd64 (- r)) else rnd64 r)
      | _ \<Rightarrow> x)"

text \<open>The float literal \<^verbatim>\<open>0.93\<close> of the source.\<close>

definition usd_to_eur :: pyfloat where
  "usd_to_eur = rnd64 (93 / 100)"


subsection \<open>Reading a float: \<^verbatim>\<open>float(s)\<close>\<close>

text \<open>
  The zero digits of the decimal-digit blocks of Unicode 14 (the table of CPython 3.11):
  each is followed by the digits one to nine.
\<close>

definition decimal_zeros :: "nat list" where
  "decimal_zeros =
     [48, 1632, 1776, 1984, 2406, 2534, 2662, 2790, 2918, 3046, 3174, 3302, 3430, 3558,
      3664, 3792, 3872, 4160, 4240, 6112, 6160, 6470, 6608, 6784, 6800, 6992, 7088, 7232,
      7248, 42528, 43216, 43264, 43472, 43504, 43600, 44016, 65296, 66720, 68912, 69734,
      69872, 69942, 70096, 70384, 70736, 70864, 71248, 71360, 71472, 71904, 72016, 72784,
      73040, 73120, 92768, 92864, 93008, 120782, 120792, 120802, 120812, 120822, 123200,
      123632, 125264, 130032]"

fun decimal_in :: "nat list \<Rightarrow> nat \<Rightarrow> nat option" where
  "decimal_in [] c = None"
| "decimal_in (z # zs) c = (if z \<le> c \<and> c < z + 10 then Some (c - z) else decimal_in zs c)"

text \<open>
  \<^verbatim>\<open>float\<close> first maps every non-ASCII white space to a blank and every decimal digit to
  its ASCII digit; any other non-ASCII character becomes a question mark, which no number
  contains.
\<close>

definition to_ascii :: "nat \<Rightarrow> nat" where
  "to_ascii c =
     (if c < 127 then c
      else if is_space c then 32
      else case decimal_in decimal_zeros c of Some d \<Rightarrow> 48 + d | None \<Rightarrow> 63)"

definition ascii_space :: "nat \<Rightarrow> bool" where
  "ascii_space c \<longleftrightarrow> (9 \<le> c \<and> c \<le> 13) \<or> c = 32"

definition ascii_digit :: "nat \<Rightarrow> bool" where
  "ascii_digit c \<longleftrightarrow> 48 \<le> c \<and> c \<le> 57"

text \<open>An underscore is accepted only between two digits; \<open>prev\<close> is the character before.\<close>

fun underscores_ok :: "nat \<Rightarrow> ustring \<Rightarrow> bool" where
  "underscores_ok prev [] \<longleftrightarrow> prev \<noteq> 95"
| "underscores_ok prev (c # cs) \<longleftrightarrow>
     (if c = 95 then ascii_digit prev else if prev = 95 then ascii_digit c else True) \<and>
     underscores_ok c cs"

definition digits_value :: "ustring \<Rightarrow> nat" where
  "digits_value ds = foldl (\<lambda>a c. 10 * a + (c - 48)) 0 ds"

definition lower :: "nat \<Rightarrow> nat" where
  "lower c = (if 65 \<le> c \<and> c \<le> 90 then c + 32 else c)"

definition split_sign :: "ustring \<Rightarrow> bool \<times> ustring" where
  "split_sign s =
     (case s of
        [] \<Rightarrow> (False, [])
      | c # cs \<Rightarrow> if c = 45 then (True, cs) else if c = 43 then (False, cs) else (False, s))"

text \<open>The words \<^verbatim>\<open>inf\<close>, \<^verbatim>\<open>infinity\<close> and \<^verbatim>\<open>nan\<close>, in any case, after the sign.\<close>

definition parse_inf_or_nan :: "bool \<Rightarrow> ustring \<Rightarrow> pyfloat option" where
  "parse_inf_or_nan neg r =
     (let w = map lower r
      in if w = ustr ''inf'' \<or> w = ustr ''infinity'' then Some (if neg then NInf else PInf)
         else if w = ustr ''nan'' then Some NaN
         else None)"

text \<open>The exponent part: nothing, or \<^verbatim>\<open>e\<close>, an optional sign and at least one digit.\<close>

definition parse_exponent :: "ustring \<Rightarrow> int option" where
  "parse_exponent r =
     (case r of
        [] \<Rightarrow> Some 0
      | c # t \<Rightarrow>
          if c = 101 \<or> c = 69 then
            (case split_sign t of
               (neg, ds) \<Rightarrow>
                 if ds \<noteq> [] \<and> list_all ascii_digit ds
                 then Some (if neg then - int (digits_value ds) else int (digits_value ds))
                 else None)
          else None)"

text \<open>
  A decimal number: digits with an optional point, at least one digit before or after it,
  and an optional exponent. Its exact value is rounded once, to the nearest float.
\<close>

definition parse_number :: "ustring \<Rightarrow> pyfloat option" where
  "parse_number s =
     (case split_sign s of
        (neg, r) \<Rightarrow>
          (let ip = takeWhile ascii_digit r;
               r1 = dropWhile ascii_digit r;
               fp = (case r1 of [] \<Rightarrow> [] | c # t \<Rightarrow> if c = 46 then takeWhile ascii_digit t else []);
               r2 = (case r1 of [] \<Rightarrow> [] | c # t \<Rightarrow> if c = 46 then dropWhile ascii_digit t else r1)
           in if ip = [] \<and> fp = [] then parse_inf_or_nan neg r
              else case parse_exponent r2 of
                     None \<Rightarrow> None
                   | Some e \<Rightarrow>
                       (let m = digits_value (ip @ fp)
                        in if m = 0 then Some (if neg then NegZero else Fin 0)
                           else Some (rnd64 ((if neg then - 1 else 1) * of_nat m *
                                             pow_i 10 (e - int (length fp)))))))"

text \<open>\<^verbatim>\<open>float(s)\<close> for a string \<open>s\<close>; \<open>None\<close> is the \<^verbatim>\<open>ValueError\<close>.\<close>

definition py_float :: "ustring \<Rightarrow> pyfloat option" where
  "py_float s =
     (let t = map to_ascii s;
          u = rev (dropWhile ascii_space (rev (dropWhile ascii_space t)))
      in if underscores_ok 0 u then parse_number (filter (\<lambda>c. c \<noteq> 95) u) else None)"

subsection \<open>Printing a float: \<^verbatim>\<open>str(x)\<close>\<close>

text \<open>
  \<^verbatim>\<open>str\<close> prints the shortest decimal that reads back as the same float. With \<open>n\<close>
  significant digits the only candidates are the two \<open>n\<close>-digit decimals around \<open>x\<close>;
  of those that read back as \<open>x\<close> the nearer one is taken.
\<close>

definition candidate :: "rat \<Rightarrow> int \<Rightarrow> nat \<Rightarrow> int option" where
  "candidate x e10 n =
     (let scale = pow_i 10 (e10 - int n + 1);
          lo = \<lfloor>x / scale\<rfloor>;
          hi = lo + 1;
          oklo = (rnd64 (of_int lo * scale) = Fin x);
          okhi = (rnd64 (of_int hi * scale) = Fin x)
      in if oklo \<and> okhi then Some (round_half_even (x / scale))
         else if oklo then Some lo
         else if okhi then Some hi
         else None)"

text \<open>
  The search starts at one digit; seventeen digits always identify a float, so the search
  stops there with the nearest decimal.
\<close>

fun shortest_from :: "rat \<Rightarrow> int \<Rightarrow> nat \<Rightarrow> nat \<Rightarrow> int \<times> nat" where
  "shortest_from x e10 n 0 = (round_half_even (x / pow_i 10 (e10 - int n + 1)), n)"
| "shortest_from x e10 n (Suc k) =
     (case candidate x e10 n of
        Some m \<Rightarrow> (m, n)
      | None \<Rightarrow> shortest_from x e10 (Suc n) k)"

definition strip_zeros :: "ustring \<Rightarrow> ustring" where
  "strip_zeros ds = rev (dropWhile (\<lambda>c. c = 48) (rev ds))"

text \<open>
  The digits \<open>ds\<close> stand for \<open>0.ds \<times> 10\<^bsup>decpt\<^esup>\<close>. \<^verbatim>\<open>repr\<close> switches to the exponent
  form when \<open>decpt\<close> is below \<open>-3\<close> or above \<open>16\<close>.
\<close>

definition format_digits :: "ustring \<Rightarrow> int \<Rightarrow> ustring" where
  "format_digits ds decpt =
     (if decpt \<le> - 4 \<or> 16 < decpt then
        take 1 ds @ (if 1 < length ds then [46] @ drop 1 ds else []) @ [101] @
        (if decpt - 1 < 0 then [45] else [43]) @ zfill 2 (show_nat (nat \<bar>decpt - 1\<bar>))
      else if decpt \<le> 0 then [48, 46] @ replicate (nat (- decpt)) 48 @ ds
      else if int (length ds) \<le> decpt then ds @ replicate (nat decpt - length ds) 48 @ [46, 48]
      else take (nat decpt) ds @ [46] @ drop (nat decpt) ds)"

definition repr_pos :: "rat \<Rightarrow> ustring" where
  "repr_pos x =
     (let e10 = ilog 10 x
      in case shortest_from x e10 1 16 of
           (m, n) \<Rightarrow>
             (let ds = show_nat (nat m)
              in format_digits (strip_zeros ds) (e10 + 1 + (int (length ds) - int n))))"

fun repr_f :: "pyfloat \<Rightarrow> ustring" where
  "repr_f NaN = [110, 97, 110]"
| "repr_f PInf = [105, 110, 102]"
| "repr_f NInf = [45, 105, 110, 102]"
| "repr_f NegZero = [45, 48, 46, 48]"
| "repr_f (Fin x) =
     (if x = 0 then [48, 46, 48]
      else if x < 0 then [45] @ repr_pos (- x)
      else repr_pos x)"


section \<open>The world outside the script\<close>

text \<open>
  \<^verbatim>\<open>response.json()\<close> yields a Python value: \<^verbatim>\<open>None\<close>, a boolean, a number, a
  string, a list or a dictionary. A dictionary is kept as the list of its items; a key is
  looked up with \<open>map_of\<close>.
\<close>

datatype json =
    JNull
  | JBool bool
  | JInt int
  | JFloat pyfloat
  | JStr ustring
  | JArr "json list"
  | JObj "(ustring \<times> json) list"

text \<open>The truth value Python gives a value in a condition.\<close>

fun truthy :: "json \<Rightarrow> bool" where
  "truthy JNull \<longleftrightarrow> False"
| "truthy (JBool b) \<longleftrightarrow> b"
| "truthy (JInt i) \<longleftrightarrow> i \<noteq> 0"
| "truthy (JFloat x) \<longleftrightarrow> f_truthy x"
| "truthy (JStr s) \<longleftrightarrow> s \<noteq> []"
| "truthy (JArr xs) \<longleftrightarrow> xs \<noteq> []"
| "truthy (JObj kvs) \<longleftrightarrow> kvs \<noteq> []"

text \<open>\<^verbatim>\<open>d.get(k)\<close>: the value of the key, \<^verbatim>\<open>None\<close> when the key is missing.\<close>

definition dict_get :: "(ustring \<times> json) list \<Rightarrow> ustring \<Rightarrow> json" where
  "dict_get kvs k = (case map_of kvs k of None \<Rightarrow> JNull | Some v \<Rightarrow> v)"

text \<open>
  One \<^verbatim>\<open>requests.get(...)\<close> followed by \<^verbatim>\<open>response.json()\<close> either raises (no
  connection, a timeout, a body that is not JSON) or yields the decoded body. One
  \<^verbatim>\<open>requests.post(...)\<close> either raises or yields a status code.
\<close>

datatype http_reply = Raises | Body json

datatype post_reply = PostRaises | Status int

text \<open>The exceptions that can leave a function of the script.\<close>

datatype exn = RequestException | OSError

record datetime =
  dt_year :: nat
  dt_month :: nat
  dt_day :: nat
  dt_hour :: nat
  dt_minute :: nat
  dt_second :: nat

text \<open>
  The environment answers the script: the reply to the \<open>n\<close>-th GET request (with its URL),
  the reply to the \<open>n\<close>-th POST request, and, for the \<open>n\<close>-th call of \<open>log_price_change\<close>,
  the time \<^verbatim>\<open>datetime.now()\<close> returns and whether the file system fails.
\<close>

record env =
  http_get :: "nat \<Rightarrow> ustring \<Rightarrow> http_reply"
  http_post :: "nat \<Rightarrow> post_reply"
  clock :: "nat \<Rightarrow> datetime"
  fs_fault :: "nat \<Rightarrow> bool"

text \<open>
  The module \<^verbatim>\<open>Config\<close> is not part of the sources; its constants are parameters.
  \<open>SKINS\<close> lists the items of the dictionary in insertion order.
\<close>

record config =
  SKINS :: "(ustring \<times> ustring) list"
  IFTTT_URL :: ustring
  LOG_FOLDER :: ustring

text \<open>
  What the script changes outside its own variables: the text files (by path), the POST
  requests issued so far (URL and JSON body), the number of GET requests issued and the
  number of calls of \<open>log_price_change\<close>. \<^verbatim>\<open>print\<close> and \<^verbatim>\<open>time.sleep\<close> change none of
  these and are left out.
\<close>

type_synonym payload = "(ustring \<times> ustring) list"

record world =
  files :: "ustring \<rightharpoonup> ustring"
  sent :: "(ustring \<times> payload) list"
  gets :: nat
  logs :: nat

section \<open>\<^verbatim>\<open>get_price\<close>\<close>

definition default_retries :: int where
  "default_retries = 3"

text \<open>The chain of \<^verbatim>\<open>replace\<close> calls and the final \<^verbatim>\<open>strip\<close>.\<close>

definition clean_price :: "ustring \<Rightarrow> ustring" where
  "clean_price price_str =
     strip (replace (replace (replace (replace price_str (ustr ''$'') []) [euro] [])
                      (ustr '','') (ustr ''.'')) (ustr ''--'') [])"

text \<open>The inner \<^verbatim>\<open>try\<close>: \<open>None\<close> is the \<^verbatim>\<open>return None\<close> of the \<^verbatim>\<open>ValueError\<close> handler.\<close>

definition convert_price :: "ustring \<Rightarrow> pyfloat option" where
  "convert_price price_str =
     (case py_float (clean_price price_str) of
        None \<Rightarrow> None
      | Some price \<Rightarrow>
          Some (if contains (ustr ''$'') price_str then round2 (f_mul price usd_to_eur)
                else price))"

text \<open>
  One pass through the loop body either returns from \<open>get_price\<close> or falls through to the
  next attempt. An exception inside the outer \<^verbatim>\<open>try\<close> is caught there: a failed
  request, \<^verbatim>\<open>.get\<close> on a body that is no dictionary, \<^verbatim>\<open>.replace\<close> on a price that is
  no string.
\<close>

datatype outcome = Return "pyfloat option" | Retry

definition attempt :: "http_reply \<Rightarrow> outcome" where
  "attempt r =
     (case r of
        Raises \<Rightarrow> Retry
      | Body data \<Rightarrow>
          (case data of
             JObj kvs \<Rightarrow>
               if truthy (dict_get kvs (ustr ''success'')) \<and>
                  truthy (dict_get kvs (ustr ''lowest_price''))
               then (case dict_get kvs (ustr ''lowest_price'') of
                       JStr price_str \<Rightarrow> Return (convert_price price_str)
                     | _ \<Rightarrow> Retry)
               else Retry
           | _ \<Rightarrow> Retry))"

text \<open>The \<^verbatim>\<open>for attempt in range(retries)\<close> loop, with the attempts that are left.\<close>

fun get_price_loop :: "env \<Rightarrow> ustring \<Rightarrow> nat \<Rightarrow> world \<Rightarrow> pyfloat option \<times> world" where
  "get_price_loop e url 0 w = (None, w)"
| "get_price_loop e url (Suc n) w =
     (case attempt (http_get e (gets w) url) of
        Return p \<Rightarrow> (p, w\<lparr>gets := gets w + 1\<rparr>)
      | Retry \<Rightarrow> get_price_loop e url n (w\<lparr>gets := gets w + 1\<rparr>))"

definition get_price :: "env \<Rightarrow> ustring \<Rightarrow> int \<Rightarrow> world \<Rightarrow> pyfloat option \<times> world" where
  "get_price e url retries w = get_price_loop e url (nat retries) w"

section \<open>Notifications\<close>

text \<open>\<^verbatim>\<open>requests.post(url, json=data)\<close>: the request is issued, then it raises or answers.\<close>

definition requests_post :: "env \<Rightarrow> ustring \<Rightarrow> payload \<Rightarrow> world \<Rightarrow> (exn + int) \<times> world" where
  "requests_post e url data w =
     (case http_post e (length (sent w)) of
        PostRaises \<Rightarrow> (Inl RequestException, w\<lparr>sent := sent w @ [(url, data)]\<rparr>)
      | Status code \<Rightarrow> (Inr code, w\<lparr>sent := sent w @ [(url, data)]\<rparr>))"

text \<open>
  A procedure returns \<open>None\<close> when it returns normally and \<open>Some e\<close> when the exception
  \<open>e\<close> leaves it, with the world as it is at that moment.
\<close>

definition send_ifttt_notification ::
  "config \<Rightarrow> env \<Rightarrow> ustring \<Rightarrow> pyfloat \<Rightarrow> pyfloat \<Rightarrow> world \<Rightarrow> exn option \<times> world" where
  "send_ifttt_notification cfg e skin_name new_price old_price w =
     (case requests_post e (IFTTT_URL cfg)
             [(ustr ''value1'', skin_name),
              (ustr ''value2'', repr_f new_price @ [32, euro]),
              (ustr ''value3'', repr_f old_price @ [32, euro])] w of
        (Inl ex, w') \<Rightarrow> (Some ex, w')
      | (Inr code, w') \<Rightarrow> (None, w'))"

definition send_error_notification ::
  "config \<Rightarrow> env \<Rightarrow> ustring \<Rightarrow> world \<Rightarrow> exn option \<times> world" where
  "send_error_notification cfg e error_message w =
     (case requests_post e (IFTTT_URL cfg)
             [(ustr ''value1'', ustr ''Steam Price Alert Error''),
              (ustr ''value2'', error_message)] w of
        (Inl ex, w') \<Rightarrow> (None, w')
      | (Inr code, w') \<Rightarrow> (None, w'))"

section \<open>\<^verbatim>\<open>log_price_change\<close>\<close>

text \<open>\<^verbatim>\<open>os.path.join\<close> of two components, on POSIX.\<close>

definition path_join :: "ustring \<Rightarrow> ustring \<Rightarrow> ustring" where
  "path_join a b =
     (if b \<noteq> [] \<and> hd b = 47 then b
      else if a = [] \<or> last a = 47 then a @ b
      else a @ [47] @ b)"

definition log_file_name :: "config \<Rightarrow> ustring \<Rightarrow> ustring" where
  "log_file_name cfg skin_name =
     path_join (LOG_FOLDER cfg)
       (replace (replace skin_name (ustr ''|'') []) (ustr '' '') (ustr ''_'') @ ustr ''.txt'')"

text \<open>\<^verbatim>\<open>strftime("%Y-%m-%d %H:%M:%S")\<close>.\<close>

definition strftime :: "datetime \<Rightarrow> ustring" where
  "strftime t =
     zfill 4 (show_nat (dt_year t)) @ [45] @ zfill 2 (show_nat (dt_month t)) @ [45] @
     zfill 2 (show_nat (dt_day t)) @ [32] @ zfill 2 (show_nat (dt_hour t)) @ [58] @
     zfill 2 (show_nat (dt_minute t)) @ [58] @ zfill 2 (show_nat (dt_second t))"

text \<open>
  The log is opened with \<^verbatim>\<open>open(file_name, "r", encoding="utf-8")\<close>: text mode with
  universal newlines. What the script reads is the decoded content of the file with every
  \<^verbatim>\<open>\r\n\<close> and every other \<^verbatim>\<open>\r\<close> turned into \<^verbatim>\<open>\n\<close>. A file of the world holds the
  decoded content as it is stored; appending (on POSIX) stores the entry unchanged.
\<close>

fun universal_newlines :: "ustring \<Rightarrow> ustring" where
  "universal_newlines [] = []"
| "universal_newlines [c] = [if c = carriage_return then newline else c]"
| "universal_newlines (c # d # cs) =
     (if c = carriage_return \<and> d = newline then newline # universal_newlines cs
      else if c = carriage_return then newline # universal_newlines (d # cs)
      else c # universal_newlines (d # cs))"

text \<open>
  \<^verbatim>\<open>f.readlines()\<close> on the text read: every line keeps its newline, the last one may lack
  it.
\<close>

fun readlines :: "ustring \<Rightarrow> ustring list" where
  "readlines [] = []"
| "readlines (c # cs) =
     (if c = newline then [c] # readlines cs
      else case readlines cs of [] \<Rightarrow> [[c]] | l # ls \<Rightarrow> (c # l) # ls)"

text \<open>The stripped last line of the file, empty when there is no file or no line.\<close>

definition last_line_of :: "world \<Rightarrow> ustring \<Rightarrow> ustring" where
  "last_line_of w file_name =
     (case files w file_name of
        None \<Rightarrow> []
      | Some text \<Rightarrow>
          (let lines = readlines (universal_newlines text)
           in if lines \<noteq> [] then strip (last lines) else []))"

definition log_entry :: "pyfloat \<Rightarrow> pyfloat \<Rightarrow> ustring \<Rightarrow> ustring" where
  "log_entry old_price new_price timestamp =
     repr_f old_price @ [32, euro] @ ustr '' ('' @ timestamp @ ustr '') -> '' @
     repr_f new_price @ [32, euro] @ ustr '' ('' @ timestamp @ ustr '')'' @ [newline]"

text \<open>Opening a file for appending creates it; the entry goes to its end.\<close>

definition append_file :: "world \<Rightarrow> ustring \<Rightarrow> ustring \<Rightarrow> world" where
  "append_file w file_name entry =
     w\<lparr>files := (files w)(file_name \<mapsto>
          (case files w file_name of None \<Rightarrow> entry | Some text \<Rightarrow> text @ entry))\<rparr>"

text \<open>
  A failure of the file system (\<^verbatim>\<open>makedirs\<close>, \<^verbatim>\<open>open\<close>, reading, writing) leaves the
  function as an \<open>OSError\<close> and the files as they are.
\<close>

definition log_price_change ::
  "config \<Rightarrow> env \<Rightarrow> ustring \<Rightarrow> pyfloat \<Rightarrow> pyfloat \<Rightarrow> world \<Rightarrow> exn option \<times> world" where
  "log_price_change cfg e skin_name old_price new_price w =
     (if fs_fault e (logs w) then (Some OSError, w\<lparr>logs := logs w + 1\<rparr>)
      else
        let file_name = log_file_name cfg skin_name;
            timestamp = strftime (clock e (logs w));
            last_line = last_line_of w file_name
        in if last_line = [] \<or> \<not> contains (repr_f new_price @ [32, euro]) last_line
           then (None, append_file (w\<lparr>logs := logs w + 1\<rparr>) file_name
                         (log_entry old_price new_price timestamp))
           else (None, w\<lparr>logs := logs w + 1\<rparr>))"

text \<open>
  Whether a call of \<open>log_price_change\<close> reaches the branch that writes: no failure of the
  file system and a last line that does not mention the new price.
\<close>

definition writes :: "config \<Rightarrow> env \<Rightarrow> ustring \<Rightarrow> pyfloat \<Rightarrow> world \<Rightarrow> bool" where
  "writes cfg e name new w \<longleftrightarrow>
     \<not> fs_fault e (logs w) \<and>
     \<not> contains (repr_f new @ [32, euro]) (last_line_of w (log_file_name cfg name))"

text \<open>
  A sequence of calls of \<open>log_price_change\<close> for one item, each with its old and its new
  price. The result lists the calls that changed the text of the item's file, in order,
  next to the final world.
\<close>

fun log_calls ::
  "config \<Rightarrow> env \<Rightarrow> ustring \<Rightarrow> (pyfloat \<times> pyfloat) list \<Rightarrow> world \<Rightarrow>
   (pyfloat \<times> pyfloat) list \<times> world" where
  "log_calls cfg e skin_name [] w = ([], w)"
| "log_calls cfg e skin_name (call # rest) w =
     (let w1 = snd (log_price_change cfg e skin_name (fst call) (snd call) w) in
      case log_calls cfg e skin_name rest w1 of
        (written, w') \<Rightarrow>
          (if files w1 (log_file_name cfg skin_name) \<noteq> files w (log_file_name cfg skin_name)
           then call # written else written, w'))"

section \<open>\<^verbatim>\<open>check_price_change\<close> and \<^verbatim>\<open>main\<close>\<close>

definition check_price_change :: "pyfloat option \<Rightarrow> pyfloat option \<Rightarrow> int \<Rightarrow> bool" where
  "check_price_change old_price new_price threshold =
     (case old_price of
        None \<Rightarrow> False
      | Some ol \<Rightarrow>
          (case new_price of
             None \<Rightarrow> False
           | Some nw \<Rightarrow> f_ge_int (f_abs (f_sub nw ol)) threshold))"

type_synonym prices = "ustring \<rightharpoonup> pyfloat"

text \<open>The body of the first loop of \<open>main\<close>: \<^verbatim>\<open>if price:\<close> tests the truth value.\<close>

definition init_item :: "env \<Rightarrow> prices \<times> world \<Rightarrow> ustring \<times> ustring \<Rightarrow> prices \<times> world" where
  "init_item e st item =
     (case st of (base_prices, w) \<Rightarrow>
      case item of (skin_name, url) \<Rightarrow>
      case get_price e url default_retries w of
        (None, w1) \<Rightarrow> (base_prices, w1)
      | (Some price, w1) \<Rightarrow>
          if f_truthy price then ((base_prices(skin_name \<mapsto> price)), w1)
          else (base_prices, w1))"

definition main_init :: "config \<Rightarrow> env \<Rightarrow> world \<Rightarrow> prices \<times> world" where
  "main_init cfg e w = foldl (init_item e) (Map.empty, w) (SKINS cfg)"

text \<open>The body of the monitoring loop for one item.\<close>

definition monitor_item ::
  "config \<Rightarrow> env \<Rightarrow> prices \<times> world \<Rightarrow> ustring \<times> ustring \<Rightarrow> exn option \<times> prices \<times> world" where
  "monitor_item cfg e st item =
     (case st of (base_prices, w) \<Rightarrow>
      case item of (skin_name, url) \<Rightarrow>
      case get_price e url default_retries w of
        (None, w1) \<Rightarrow> (None, base_prices, w1)
      | (Some current_price, w1) \<Rightarrow>
          (let old_price = (case base_prices skin_name of
                              None \<Rightarrow> current_price | Some p \<Rightarrow> p)
           in if f_ne current_price old_price then
                (case log_price_change cfg e skin_name old_price current_price w1 of
                   (Some ex, w2) \<Rightarrow> (Some ex, base_prices, w2)
                 | (None, w2) \<Rightarrow>
                     if check_price_change (Some old_price) (Some current_price) 10 then
                       (case send_ifttt_notification cfg e skin_name current_price
                               old_price w2 of
                          (Some ex, w3) \<Rightarrow> (Some ex, base_prices, w3)
                        | (None, w3) \<Rightarrow> (None, (base_prices(skin_name \<mapsto> current_price)), w3))
                     else (None, (base_prices(skin_name \<mapsto> current_price)), w2))
              else (None, base_prices, w1)))"

text \<open>One pass of \<^verbatim>\<open>for skin_name, url in Config.SKINS.items()\<close>; an exception ends it.\<close>

fun monitor_items ::
  "config \<Rightarrow> env \<Rightarrow> prices \<times> world \<Rightarrow> (ustring \<times> ustring) list \<Rightarrow> exn option \<times> prices \<times> world" where
  "monitor_items cfg e st [] = (None, st)"
| "monitor_items cfg e st (item # rest) =
     (case monitor_item cfg e st item of
        (Some ex, st1) \<Rightarrow> (Some ex, st1)
      | (None, st1) \<Rightarrow> monitor_items cfg e st1 rest)"

text \<open>
  \<^verbatim>\<open>while True\<close> has no exit but an exception. \<open>monitor_cycles cfg e k st\<close> is the state
  after \<open>k\<close> passes, or the exception and the state at the moment it is raised.
\<close>

fun monitor_cycles ::
  "config \<Rightarrow> env \<Rightarrow> nat \<Rightarrow> prices \<times> world \<Rightarrow> exn option \<times> prices \<times> world" where
  "monitor_cycles cfg e 0 st = (None, st)"
| "monitor_cycles cfg e (Suc k) st =
     (case monitor_items cfg e st (SKINS cfg) of
        (Some ex, st1) \<Rightarrow> (Some ex, st1)
      | (None, st1) \<Rightarrow> monitor_cycles cfg e k st1)"

definition main :: "config \<Rightarrow> env \<Rightarrow> nat \<Rightarrow> world \<Rightarrow> exn option \<times> prices \<times> world" where
  "main cfg e k w = monitor_cycles cfg e k (main_init cfg e w)"


section \<open>Inputs for the examples\<close>

text \<open>
  A reply counts as failed, in the words of the specification, when the request raised (a
  network error, a timeout) or the body carries no valid success signal.
\<close>

definition failed_reply :: "http_reply \<Rightarrow> bool" where
  "failed_reply r =
     (case r of
        Raises \<Rightarrow> True
      | Body data \<Rightarrow>
          (case data of
             JObj kvs \<Rightarrow> \<not> truthy (dict_get kvs (ustr ''success''))
           | _ \<Rightarrow> True))"

text \<open>The body \<^verbatim>\<open>{"success": false}\<close>.\<close>

definition no_success :: json where
  "no_success = JObj [(ustr ''success'', JBool False)]"

text \<open>The body \<^verbatim>\<open>{"success": true, "lowest_price": s}\<close>.\<close>

definition price_body :: "ustring \<Rightarrow> http_reply" where
  "price_body s = Body (JObj [(ustr ''success'', JBool True), (ustr ''lowest_price'', JStr s)])"

text \<open>No file, no request issued yet.\<close>

definition world0 :: world where
  "world0 = \<lparr>files = Map.empty, sent = [], gets = 0, logs = 0\<rparr>"

text \<open>
  An environment that answers the \<open>n\<close>-th GET request with \<open>replies n\<close> and the \<open>n\<close>-th
  POST request with \<open>posts n\<close>, on the 7th of March 2024 at 09:05, with a file system that
  works.
\<close>

definition env_of :: "(nat \<Rightarrow> http_reply) \<Rightarrow> (nat \<Rightarrow> post_reply) \<Rightarrow> env" where
  "env_of replies posts =
     \<lparr>http_get = (\<lambda>n url. replies n), http_post = posts,
      clock = (\<lambda>n. \<lparr>dt_year = 2024, dt_month = 3, dt_day = 7, dt_hour = 9,
                       dt_minute = 5, dt_second = n\<rparr>),
      fs_fault = (\<lambda>n. False)\<rparr>"

definition env_const :: "http_reply \<Rightarrow> env" where
  "env_const r = env_of (\<lambda>n. r) (\<lambda>n. Status 200)"

text \<open>The characters a printed float is made of.\<close>

definition plain_char :: "nat \<Rightarrow> bool" where
  "plain_char c \<longleftrightarrow> (48 \<le> c \<and> c \<le> 57) \<or> c \<in> {43, 45, 46, 97, 101, 102, 105, 110}"

text \<open>One configured item.\<close>

definition skin :: ustring where
  "skin = ustr ''AK-47 | Redline''"

definition skin_url :: ustring where
  "skin_url = ustr ''https://steamcommunity.com/market/priceoverview/?market_hash_name=AK-47''"

definition config0 :: config where
  "config0 = \<lparr>SKINS = [(skin, skin_url)], IFTTT_URL = ustr ''https://maker.ifttt.com/trigger'',
               LOG_FOLDER = ustr ''logs''\<rparr>"

text \<open>Environments for the example runs.\<close>

definition env_updown :: env where
  "env_updown =
     env_of (\<lambda>n. if n = 0 then price_body (ustr ''100,00'' @ [euro])
                 else if n = 1 then price_body (ustr ''105,00'' @ [euro])
                 else price_body (ustr ''100,00'' @ [euro]))
            (\<lambda>n. Status 200)"

definition env_late :: env where
  "env_late =
     env_of (\<lambda>n. if n < 3 then Raises
                 else if n = 3 then price_body (ustr ''5,00'' @ [euro])
                 else price_body (ustr ''20,00'' @ [euro]))
            (\<lambda>n. Status 200)"

definition env_jump :: "post_reply \<Rightarrow> env" where
  "env_jump answer = env_of (\<lambda>n. price_body (ustr ''112,00'' @ [euro])) (\<lambda>n. answer)"

text \<open>
  A world in which the log of the item already ends with an entry for the new price
  \<^verbatim>\<open>105.0\<close>, written by an earlier run of the script.
\<close>

definition world_logged :: world where
  "world_logged =
     world0\<lparr>files := [ustr ''logs/AK-47__Redline.txt'' \<mapsto>
       ustr ''100.0 '' @ [euro] @ ustr '' (2024-03-06 18:30:00) -> 105.0 '' @ [euro] @
       ustr '' (2024-03-06 18:30:00)'' @ [newline]]\<rparr>"

text \<open>
  The same log with a note added after a lone carriage return: read in text mode, its last
  line is \<^verbatim>\<open>checked\<close>.
\<close>

definition world_cr :: world where
  "world_cr =
     world0\<lparr>files := [ustr ''logs/AK-47__Redline.txt'' \<mapsto>
       ustr ''100.0 '' @ [euro] @ ustr '' (2024-03-06 18:30:00) -> 105.0 '' @ [euro] @
       ustr '' (2024-03-06 18:30:00)'' @ [carriage_return] @ ustr ''checked'' @ [newline]]\<rparr>"

section \<open>Facts about the float operations\<close>

declare show_nat.simps [simp del] digit_count.simps [simp del]


lemma f_abs_rnd64_minus: "f_abs (rnd64 (- x)) = f_abs (rnd64 x)"
  by (cases "x = 0") (auto simp: rnd64_def split: option.splits)

lemma f_abs_rnd64_diff: "f_abs (rnd64 (x - y)) = f_abs (rnd64 (y - x))"
  using f_abs_rnd64_minus [of "y - x"] by simp

lemma f_abs_f_sub_commute: "f_abs (f_sub a b) = f_abs (f_sub b a)"
  by (cases a; cases b) (auto simp: f_sub_def f_abs_rnd64_diff f_abs_rnd64_minus)

text \<open>Rules that let the simplifier compute with rational numerals.\<close>

lemma floor_rat_numeral: "\<lfloor>(numeral a :: rat) / numeral b\<rfloor> = numeral a div numeral b"
  by (metis floor_divide_of_int_eq of_int_numeral)

lemma ceiling_rat_numeral:
  "\<lceil>(numeral a :: rat) / numeral b\<rceil> = - (- numeral a div numeral b)"
  by (metis ceiling_def floor_divide_of_int_eq minus_divide_left of_int_minus of_int_numeral)

lemma show_nat_numeral:
  "show_nat (numeral k) =
     (if (numeral k :: nat) < 10 then [48 + numeral k]
      else show_nat (numeral k div 10) @ [48 + numeral k mod 10])"
  "show_nat 0 = [48]" "show_nat 1 = [49]" "show_nat (Suc 0) = [49]"
  by (simp_all add: show_nat.simps [of "numeral k"] show_nat.simps [of 0]
      show_nat.simps [of "Suc 0"])

lemma digit_count_numeral:
  "digit_count (numeral b) (numeral n) =
     (if (numeral b :: nat) < 2 then 0 else Suc (digit_count (numeral b) (numeral n div numeral b)))"
  "digit_count c 0 = 0"
  "digit_count (numeral b) (Suc 0) =
     (if (numeral b :: nat) < 2 then 0 else Suc (digit_count (numeral b) (Suc 0 div numeral b)))"
  by (subst digit_count.simps, simp)+

lemma shortest_from_numeral:
  "shortest_from x e10 n (numeral k) =
     (case candidate x e10 n of
        Some m \<Rightarrow> (m, n)
      | None \<Rightarrow> shortest_from x e10 (Suc n) (pred_numeral k))"
  by (simp add: numeral_eq_Suc)

lemmas float_eval =
  rnd64_def rnd_mag_def ilog_def pow_i_def round_half_even_def
  floor_rat_numeral ceiling_rat_numeral digit_count_numeral

lemma replicate_numeral: "replicate (numeral k) x = x # replicate (pred_numeral k) x"
  by (simp add: numeral_eq_Suc)

lemmas repr_eval =
  repr_pos_def format_digits_def strip_zeros_def zfill_def show_nat_numeral replicate_numeral
  shortest_from_numeral candidate_def

section \<open>Facts about strings and log lines\<close>

lemma contains_sublist: "contains sub s \<longleftrightarrow> sublist sub s"
  by (induction s) (simp_all add: sublist_Cons_right)

lemma contains_append: "contains sub (p @ sub @ q)"
  by (simp add: contains_sublist)

lemma readlines_line:
  "newline \<notin> set body \<Longrightarrow> readlines (body @ [newline]) = [body @ [newline]]"
  by (induction body) auto

lemma readlines_append_line:
  assumes "newline \<notin> set body"
  shows "\<exists>ls pre. readlines (t @ body @ [newline]) = ls @ [pre @ body @ [newline]]"
proof (induction t)
  case Nil
  have "readlines (body @ [newline]) = [] @ [[] @ body @ [newline]]"
    using assms by (simp add: readlines_line)
  then show ?case by (metis append_Nil)
next
  case (Cons c t)
  then obtain ls pre where rl: "readlines (t @ body @ [newline]) = ls @ [pre @ body @ [newline]]"
    by blast
  show ?case
  proof (cases "c = newline")
    case True
    then have "readlines ((c # t) @ body @ [newline]) = ([c] # ls) @ [pre @ body @ [newline]]"
      using rl by simp
    then show ?thesis by blast
  next
    case False
    show ?thesis
    proof (cases ls)
      case Nil
      then have "readlines ((c # t) @ body @ [newline]) = [] @ [(c # pre) @ body @ [newline]]"
        using rl False by simp
      then show ?thesis by blast
    next
      case (Cons l ls')
      then have "readlines ((c # t) @ body @ [newline]) = ((c # l) # ls') @ [pre @ body @ [newline]]"
        using rl False by simp
      then show ?thesis by blast
    qed
  qed
qed

lemma universal_newlines_id: "carriage_return \<notin> set s \<Longrightarrow> universal_newlines s = s"
  by (induction s rule: universal_newlines.induct) auto

lemma universal_newlines_append:
  "carriage_return \<notin> set s \<Longrightarrow> s \<noteq> [] \<Longrightarrow> hd s \<noteq> newline \<Longrightarrow>
   universal_newlines (t @ s) = universal_newlines t @ s"
proof (induction t rule: universal_newlines.induct)
  case 1
  then show ?case
    by (simp add: universal_newlines_id)
next
  case (2 c)
  then show ?case
    by (cases s) (auto simp: universal_newlines_id)
next
  case (3 c d cs)
  then show ?case
    by auto
qed

lemma dropWhile_keeps:
  assumes "m \<noteq> []" "\<not> P (hd m)"
  shows "\<exists>a. dropWhile P (p @ m @ s) = a @ m @ s"
proof (cases "\<forall>x \<in> set p. P x")
  case True
  have "dropWhile P (m @ s) = m @ s"
    using assms by (cases m) auto
  then have "dropWhile P (p @ m @ s) = [] @ m @ s"
    using True by (simp add: dropWhile_append)
  then show ?thesis by blast
next
  case False
  then have "dropWhile P (p @ m @ s) = dropWhile P p @ m @ s"
    by (auto simp: dropWhile_append)
  then show ?thesis by blast
qed

lemma strip_keeps:
  assumes "m \<noteq> []" "\<not> is_space (hd m)" "\<not> is_space (last m)"
  shows "\<exists>a b. strip (p @ m @ s) = a @ m @ b"
proof -
  obtain a where a: "dropWhile is_space (p @ m @ s) = a @ m @ s"
    using dropWhile_keeps [of m is_space p s] assms by blast
  have "rev m \<noteq> []" "\<not> is_space (hd (rev m))"
    using assms by (simp_all add: hd_rev)
  then obtain b where b: "dropWhile is_space (rev s @ rev m @ rev a) = b @ rev m @ rev a"
    using dropWhile_keeps [of "rev m" is_space "rev s" "rev a"] by blast
  have "strip (p @ m @ s) = a @ m @ rev b"
    by (simp add: strip_def a b)
  then show ?thesis by blast
qed


lemma plain_char_facts: "plain_char c \<Longrightarrow> \<not> is_space c \<and> c \<noteq> newline \<and> c \<noteq> euro"
  by (auto simp: plain_char_def is_space_def newline_def euro_def)

lemma show_nat_plain: "c \<in> set (show_nat n) \<Longrightarrow> 48 \<le> c \<and> c \<le> 57"
proof (induction n rule: show_nat.induct)
  case (1 n)
  show ?case
  proof (cases "n < 10")
    case True
    with "1.prems" show ?thesis by (subst (asm) show_nat.simps) simp
  next
    case False
    with "1.prems" have "c \<in> set (show_nat (n div 10)) \<or> c = 48 + n mod 10"
      by (subst (asm) show_nat.simps) auto
    then show ?thesis
    proof
      assume "c \<in> set (show_nat (n div 10))"
      then show ?thesis using "1.IH" False by simp
    next
      assume "c = 48 + n mod 10"
      moreover have "n mod 10 < 10" by simp
      ultimately show ?thesis by linarith
    qed
  qed
qed

lemma strip_zeros_subset: "set (strip_zeros ds) \<subseteq> set ds"
  unfolding strip_zeros_def by (auto dest: set_dropWhileD)

lemma format_digits_plain:
  assumes "\<And>c. c \<in> set ds \<Longrightarrow> 48 \<le> c \<and> c \<le> 57" "c \<in> set (format_digits ds decpt)"
  shows "plain_char c"
proof -
  have digit: "plain_char d" if "d \<in> set ds" for d
    using assms(1) [OF that] by (simp add: plain_char_def)
  have shown: "plain_char d" if "d \<in> set (show_nat k)" for d k
    using show_nat_plain [OF that] by (simp add: plain_char_def)
  have lits: "plain_char 46" "plain_char 101" "plain_char 45" "plain_char 43" "plain_char 48"
    by (simp_all add: plain_char_def)
  from assms(2) show ?thesis
    unfolding format_digits_def zfill_def
    by (auto split: if_splits dest!: in_set_takeD in_set_dropD intro: digit shown lits)
qed

lemma format_digits_nonempty: "format_digits ds decpt \<noteq> []"
  by (simp add: format_digits_def)

lemma repr_pos_plain:
  assumes "c \<in> set (repr_pos x)"
  shows "plain_char c"
proof -
  obtain m n where mn: "shortest_from x (ilog 10 x) (Suc 0) 16 = (m, n)"
    by (cases "shortest_from x (ilog 10 x) (Suc 0) 16")
  have digits: "48 \<le> d \<and> d \<le> 57" if "d \<in> set (strip_zeros (show_nat (nat m)))" for d
    using that strip_zeros_subset show_nat_plain by blast
  have "c \<in> set (format_digits (strip_zeros (show_nat (nat m)))
          (ilog 10 x + 1 + (int (length (show_nat (nat m))) - int n)))"
    using assms by (simp add: repr_pos_def Let_def mn)
  then show ?thesis
    using format_digits_plain digits by blast
qed

lemma repr_pos_nonempty: "repr_pos x \<noteq> []"
  by (simp add: repr_pos_def Let_def format_digits_nonempty split: prod.splits)

lemma repr_f_plain: "c \<in> set (repr_f x) \<Longrightarrow> plain_char c"
  by (cases x) (auto simp: plain_char_def [of 45] plain_char_def [of 48] plain_char_def [of 46]
      plain_char_def [of 110] plain_char_def [of 97] plain_char_def [of 105]
      plain_char_def [of 102] dest: repr_pos_plain split: if_splits)

lemma repr_f_nonempty: "repr_f x \<noteq> []"
  by (cases x) (simp_all add: repr_pos_nonempty)


lemma zfill_no_newline: "newline \<notin> set s \<Longrightarrow> newline \<notin> set (zfill k s)"
  by (auto simp: zfill_def newline_def)

lemma show_nat_no_newline: "newline \<notin> set (show_nat n)"
  using show_nat_plain [of newline n] by (auto simp: newline_def)

lemma strftime_no_newline: "newline \<notin> set (strftime t)"
proof -
  have z: "newline \<notin> set (zfill k (show_nat n))" for k n
    by (rule zfill_no_newline) (rule show_nat_no_newline)
  have lits: "newline \<noteq> 45" "newline \<noteq> 32" "newline \<noteq> 58"
    by (simp_all add: newline_def)
  show ?thesis
    unfolding strftime_def using z lits by simp
qed

lemma repr_f_no_newline: "newline \<notin> set (repr_f x)"
  using repr_f_plain plain_char_facts by blast

lemma repr_f_no_cr: "carriage_return \<notin> set (repr_f x)"
  using repr_f_plain [of carriage_return x]
  by (auto simp: plain_char_def carriage_return_def)

lemma strftime_no_cr: "carriage_return \<notin> set (strftime t)"
proof -
  have z: "carriage_return \<notin> set (zfill k (show_nat n))" for k n
    using show_nat_plain [of carriage_return n] by (auto simp: zfill_def carriage_return_def)
  have lits: "carriage_return \<noteq> 45" "carriage_return \<noteq> 32" "carriage_return \<noteq> 58"
    by (simp_all add: carriage_return_def)
  show ?thesis
    unfolding strftime_def using z lits by simp
qed

lemma repr_f_hd: "\<not> is_space (hd (repr_f x))"
  using repr_f_plain [of "hd (repr_f x)" x] repr_f_nonempty [of x] plain_char_facts by simp

text \<open>The two places of an entry where a price and the euro sign stand.\<close>

lemma log_entry_old:
  "log_entry old new ts =
     [] @ (repr_f old @ [32, euro]) @
     (ustr '' ('' @ ts @ ustr '') -> '' @ repr_f new @ [32, euro] @ ustr '' ('' @ ts @ ustr '')'') @
     [newline]"
  by (simp add: log_entry_def)

lemma log_entry_new:
  "log_entry old new ts =
     (repr_f old @ [32, euro] @ ustr '' ('' @ ts @ ustr '') -> '') @ (repr_f new @ [32, euro]) @
     (ustr '' ('' @ ts @ ustr '')'') @ [newline]"
  by (simp add: log_entry_def)

lemma last_line_after_line:
  assumes "files w f = Some (t @ a @ m @ b @ [newline])"
    and "newline \<notin> set (a @ m @ b)" "m \<noteq> []" "\<not> is_space (hd m)" "\<not> is_space (last m)"
    and "carriage_return \<notin> set (a @ m @ b)"
  shows "contains m (last_line_of w f)"
proof -
  let ?s = "(a @ m @ b) @ [newline]"
  have "hd ?s \<in> set (a @ m @ b)"
    using assms(3) by (cases "a @ m @ b") auto
  then have "hd ?s \<noteq> newline"
    using assms(2) by metis
  moreover have "carriage_return \<notin> set ?s"
    using assms(6) by (simp add: carriage_return_def newline_def)
  ultimately have un: "universal_newlines (t @ ?s) = universal_newlines t @ ?s"
    by (intro universal_newlines_append) simp_all
  obtain ls pre where rl:
    "readlines (universal_newlines t @ (a @ m @ b) @ [newline]) =
       ls @ [pre @ (a @ m @ b) @ [newline]]"
    using readlines_append_line [OF assms(2)] by blast
  obtain x y where st: "strip ((pre @ a) @ m @ (b @ [newline])) = x @ m @ y"
    using strip_keeps [OF assms(3,4,5)] by blast
  have "universal_newlines (t @ a @ m @ b @ [newline]) =
      universal_newlines t @ (a @ m @ b) @ [newline]"
    using un by simp
  then have "last_line_of w f = x @ m @ y"
    using rl st by (simp add: last_line_of_def assms(1) Let_def)
  then show ?thesis by (simp add: contains_append)
qed

lemma price_tag: "repr_f x @ [32, euro] \<noteq> [] \<and> \<not> is_space (hd (repr_f x @ [32, euro])) \<and>
    \<not> is_space (last (repr_f x @ [32, euro]))"
  using repr_f_hd [of x] repr_f_nonempty [of x] by (simp add: is_space_def euro_def)

lemma append_file_files:
  "files (append_file w f entry) f =
     Some ((case files w f of None \<Rightarrow> [] | Some t \<Rightarrow> t) @ entry)"
  by (simp add: append_file_def split: option.splits)

text \<open>After an entry was appended, the last line mentions both of its prices.\<close>

lemma last_line_mentions:
  assumes "newline \<notin> set ts" "carriage_return \<notin> set ts"
  shows "contains (repr_f new @ [32, euro]) (last_line_of (append_file w f (log_entry old new ts)) f)"
    and "contains (repr_f old @ [32, euro]) (last_line_of (append_file w f (log_entry old new ts)) f)"
proof -
  let ?t = "case files w f of None \<Rightarrow> [] | Some t \<Rightarrow> t"
  let ?w = "append_file w f (log_entry old new ts)"
  have lits: "newline \<notin> set (ustr '' ('')" "newline \<notin> set (ustr '') -> '')"
    "newline \<notin> set (ustr '')'')" "newline \<noteq> 32" "newline \<noteq> euro"
    "carriage_return \<notin> set (ustr '' ('')" "carriage_return \<notin> set (ustr '') -> '')"
    "carriage_return \<notin> set (ustr '')'')" "carriage_return \<noteq> 32" "carriage_return \<noteq> euro"
    by (simp_all add: ustr_def newline_def carriage_return_def euro_def)
  have a: "files ?w f = Some (?t @ (repr_f old @ [32, euro] @ ustr '' ('' @ ts @ ustr '') -> '') @
      (repr_f new @ [32, euro]) @ (ustr '' ('' @ ts @ ustr '')'') @ [newline])"
    by (simp only: append_file_files log_entry_new)
  show "contains (repr_f new @ [32, euro]) (last_line_of ?w f)"
    using price_tag [of new]
    by (intro last_line_after_line [OF a]) (simp_all add: repr_f_no_newline repr_f_no_cr assms lits)
  have b: "files ?w f = Some (?t @ [] @ (repr_f old @ [32, euro]) @
      (ustr '' ('' @ ts @ ustr '') -> '' @ repr_f new @ [32, euro] @ ustr '' ('' @ ts @ ustr '')'') @
      [newline])"
    by (simp only: append_file_files log_entry_old)
  show "contains (repr_f old @ [32, euro]) (last_line_of ?w f)"
    using price_tag [of old]
    by (intro last_line_after_line [OF b]) (simp_all add: repr_f_no_newline repr_f_no_cr assms lits)
qed

section \<open>Facts about \<open>get_price\<close>\<close>

lemma failed_reply_retry: "failed_reply r \<Longrightarrow> attempt r = Retry"
  by (auto simp: failed_reply_def attempt_def split: http_reply.splits json.splits)

lemma get_price_loop_all_retry:
  "(\<And>i. i < n \<Longrightarrow> attempt (http_get e (gets w + i) url) = Retry) \<Longrightarrow>
   get_price_loop e url n w = (None, w\<lparr>gets := gets w + n\<rparr>)"
proof (induction n arbitrary: w)
  case 0
  then show ?case by simp
next
  case (Suc n)
  have first: "attempt (http_get e (gets w) url) = Retry"
    using Suc.prems [of 0] by simp
  have rest: "attempt (http_get e (gets (w\<lparr>gets := gets w + 1\<rparr>) + i) url) = Retry"
    if "i < n" for i
    using Suc.prems [of "Suc i"] that by simp
  show ?case
    using Suc.IH [OF rest] first by simp
qed

text \<open>\<open>get_price\<close> changes nothing but the count of GET requests.\<close>

lemma get_price_loop_frame:
  "snd (get_price_loop e url n w) = w\<lparr>gets := gets (snd (get_price_loop e url n w))\<rparr>"
proof (induction n arbitrary: w)
  case 0
  then show ?case by simp
next
  case (Suc n)
  show ?case
  proof (cases "attempt (http_get e (gets w) url)")
    case (Return p)
    then show ?thesis by simp
  next
    case Retry
    have "snd (get_price_loop e url n (w\<lparr>gets := gets w + 1\<rparr>)) =
          w\<lparr>gets := gets w + 1\<rparr>\<lparr>gets := gets (snd (get_price_loop e url n (w\<lparr>gets := gets w + 1\<rparr>)))\<rparr>"
      by (rule Suc.IH)
    then show ?thesis using Retry by simp
  qed
qed

lemma get_price_loop_gets:
  "gets w \<le> gets (snd (get_price_loop e url n w)) \<and>
   gets (snd (get_price_loop e url n w)) \<le> gets w + n"
proof (induction n arbitrary: w)
  case 0
  then show ?case by simp
next
  case (Suc n)
  show ?case
  proof (cases "attempt (http_get e (gets w) url)")
    case (Return p)
    then show ?thesis by simp
  next
    case Retry
    then show ?thesis using Suc.IH [of "w\<lparr>gets := gets w + 1\<rparr>"] by simp
  qed
qed

lemma get_price_unchanged:
  "files (snd (get_price e url r w)) = files w \<and>
   sent (snd (get_price e url r w)) = sent w \<and>
   logs (snd (get_price e url r w)) = logs w"
proof -
  have "snd (get_price e url r w) = w\<lparr>gets := gets (snd (get_price e url r w))\<rparr>"
    unfolding get_price_def by (rule get_price_loop_frame)
  then have "files (snd (get_price e url r w)) = files (w\<lparr>gets := gets (snd (get_price e url r w))\<rparr>)"
    and "sent (snd (get_price e url r w)) = sent (w\<lparr>gets := gets (snd (get_price e url r w))\<rparr>)"
    and "logs (snd (get_price e url r w)) = logs (w\<lparr>gets := gets (snd (get_price e url r w))\<rparr>)"
    by simp_all
  then show ?thesis by simp
qed

section \<open>Facts about \<open>log_price_change\<close>\<close>

lemma last_line_of_logs [simp]: "last_line_of (w\<lparr>logs := k\<rparr>) f = last_line_of w f"
  by (simp add: last_line_of_def)

lemma append_file_logs [simp]: "logs (append_file w f entry) = logs w"
  by (simp add: append_file_def)

lemma log_price_change_fst:
  "fst (log_price_change cfg e name old new w) = (if fs_fault e (logs w) then Some OSError else None)"
  by (simp add: log_price_change_def Let_def)

lemma log_price_change_logs:
  "logs (snd (log_price_change cfg e name old new w)) = logs w + 1"
  by (simp add: log_price_change_def Let_def)

lemma log_price_change_suppressed:
  "contains (repr_f new @ [32, euro]) (last_line_of w (log_file_name cfg name)) \<Longrightarrow>
   snd (log_price_change cfg e name old new w) = w\<lparr>logs := logs w + 1\<rparr>"
  by (auto simp: log_price_change_def Let_def)

lemma log_price_change_written:
  "\<not> fs_fault e (logs w) \<Longrightarrow>
   \<not> contains (repr_f new @ [32, euro]) (last_line_of w (log_file_name cfg name)) \<Longrightarrow>
   snd (log_price_change cfg e name old new w) =
     append_file (w\<lparr>logs := logs w + 1\<rparr>) (log_file_name cfg name)
       (log_entry old new (strftime (clock e (logs w))))"
  by (simp add: log_price_change_def Let_def)

lemma last_line_after_log:
  assumes "\<not> fs_fault e (logs w)"
  shows "contains (repr_f new @ [32, euro])
           (last_line_of (snd (log_price_change cfg e name old new w)) (log_file_name cfg name))"
proof (cases "contains (repr_f new @ [32, euro]) (last_line_of w (log_file_name cfg name))")
  case True
  then show ?thesis by (simp add: log_price_change_suppressed)
next
  case False
  then show ?thesis
    using assms by (simp add: log_price_change_written last_line_mentions strftime_no_newline strftime_no_cr)
qed

lemma contains_trans: "contains a b \<Longrightarrow> contains b c \<Longrightarrow> contains a c"
  unfolding contains_sublist sublist_def by (metis append.assoc)

lemma repr_f_10: "repr_f (Fin 10) = ustr ''10.0''"
  by (simp add: repr_eval float_eval ustr_def)

lemma repr_f_100: "repr_f (Fin 100) = ustr ''100.0''"
  by (simp add: repr_eval float_eval ustr_def)

lemma repr_f_105: "repr_f (Fin 105) = ustr ''105.0''"
  by (simp add: repr_eval float_eval ustr_def)

lemma repr_f_110: "repr_f (Fin 110) = ustr ''110.0''"
  by (simp add: repr_eval float_eval ustr_def)

lemma log_file_name_skin: "log_file_name config0 skin = ustr ''logs/AK-47__Redline.txt''"
  by (simp add: log_file_name_def config0_def skin_def path_join_def replace_def ustr_def)

lemma strftime_example:
  "strftime (clock (env_of r p) 0) = ustr ''2024-03-07 09:05:00''"
  by (simp add: strftime_def env_of_def zfill_def show_nat_numeral replicate_numeral ustr_def)

lemma last_line_world0: "last_line_of world0 f = []"
  by (simp add: last_line_of_def world0_def)

lemma last_line_after_log_old:
  assumes "\<not> fs_fault e (logs w)"
    and "\<not> contains (repr_f new @ [32, euro]) (last_line_of w (log_file_name cfg name))"
  shows "contains (repr_f old @ [32, euro])
           (last_line_of (snd (log_price_change cfg e name old new w)) (log_file_name cfg name))"
  using assms by (simp add: log_price_change_written last_line_mentions strftime_no_newline strftime_no_cr)

lemma tag_10_in_tag_110: "contains (repr_f (Fin 10) @ [32, euro]) (repr_f (Fin 110) @ [32, euro])"
  by (simp del: repr_f.simps add: repr_f_10 repr_f_110) (simp add: ustr_def)

lemma f_ne_10_110: "f_ne (Fin 10) (Fin 110)"
  by (simp add: f_ne_def)

section \<open>Evaluating \<open>get_price\<close> on concrete replies\<close>

lemmas string_eval = ustr_def euro_def newline_def is_space_def strip_def replace_def

lemmas parse_eval =
  py_float_def to_ascii_def ascii_space_def ascii_digit_def parse_number_def split_sign_def
  parse_exponent_def parse_inf_or_nan_def digits_value_def lower_def

lemma get_price_loop_after_retries:
  "(\<And>i. i < k \<Longrightarrow> attempt (http_get e (gets w + i) url) = Retry) \<Longrightarrow>
   attempt (http_get e (gets w + k) url) = Return p \<Longrightarrow> k < n \<Longrightarrow>
   get_price_loop e url n w = (p, w\<lparr>gets := gets w + k + 1\<rparr>)"
proof (induction k arbitrary: n w)
  case 0
  then obtain m where "n = Suc m" by (cases n) auto
  with 0 show ?case by simp
next
  case (Suc k)
  then obtain m where n: "n = Suc m" "k < m" by (cases n) auto
  have first: "attempt (http_get e (gets w) url) = Retry"
    using Suc.prems(1) [of 0] by simp
  have rest: "attempt (http_get e (gets (w\<lparr>gets := gets w + 1\<rparr>) + i) url) = Retry"
    if "i < k" for i
    using Suc.prems(1) [of "Suc i"] that by simp
  have final: "attempt (http_get e (gets (w\<lparr>gets := gets w + 1\<rparr>) + k) url) = Return p"
    using Suc.prems(2) by simp
  show ?case
    using Suc.IH [OF rest final n(2)] first n(1) by simp
qed

lemma get_price_first:
  "attempt (http_get e (gets w) url) = Return p \<Longrightarrow>
   get_price e url default_retries w = (p, w\<lparr>gets := gets w + 1\<rparr>)"
  using get_price_loop_after_retries [of 0 e w url p 3]
  by (simp add: get_price_def default_retries_def)

lemma attempt_price_body: "s \<noteq> [] \<Longrightarrow> attempt (price_body s) = Return (convert_price s)"
  by (simp add: attempt_def price_body_def dict_get_def ustr_def)

lemma convert_price_zero: "convert_price (ustr ''0,00'' @ [euro]) = Some (Fin 0)"
  by (simp add: convert_price_def clean_price_def string_eval parse_eval)

lemma py_float_12_34: "py_float (ustr ''12.34'') = Some (rnd64 (1234 / 100))"
  by (simp add: string_eval parse_eval) (simp add: pow_i_def)

lemma rnd64_12_34: "rnd64 (1234 / 100) = Fin (3473401212609495 / 281474976710656)"
  by (simp add: float_eval)

lemma rnd64_0_93: "usd_to_eur = Fin (8376695306909123 / 9007199254740992)"
  by (simp add: usd_to_eur_def float_eval)

lemma rnd64_11_48: "rnd64 (1148 / 100) = Fin (3231332732638331 / 281474976710656)"
  by (simp add: float_eval)

lemma rnd64_11_47: "rnd64 (1147 / 100) = Fin (6457035965742449 / 562949953421312)"
  by (simp add: float_eval)

lemma usd_12_34: "round2 (f_mul (Fin (3473401212609495 / 281474976710656)) usd_to_eur) =
    Fin (3231332732638331 / 281474976710656)"
  by (simp add: rnd64_0_93 f_mul_def round2_def float_eval)

lemma convert_price_12_34: "convert_price (ustr ''$12.34'') = Some (rnd64 (1148 / 100))"
proof -
  have clean: "clean_price (ustr ''$12.34'') = ustr ''12.34''"
    by (simp add: clean_price_def string_eval)
  have dollar: "contains (ustr ''$'') (ustr ''$12.34'')"
    by (simp add: ustr_def)
  have "convert_price (ustr ''$12.34'') = Some (round2 (f_mul (rnd64 (1234 / 100)) usd_to_eur))"
    by (simp only: convert_price_def clean py_float_12_34 dollar option.case if_True)
  also have "\<dots> = Some (rnd64 (1148 / 100))"
    by (simp only: rnd64_12_34 usd_12_34 rnd64_11_48)
  finally show ?thesis .
qed

lemma repr_f_11_48: "repr_f (Fin (3231332732638331 / 281474976710656)) = ustr ''11.48''"
  by (simp add: repr_eval float_eval ustr_def)


lemma attempt_usd:
  assumes "truthy (dict_get kvs (ustr ''success''))"
    and "dict_get kvs (ustr ''lowest_price'') = JStr price_str"
    and "contains (ustr ''$'') price_str"
    and "py_float (clean_price price_str) = Some v"
  shows "attempt (Body (JObj kvs)) = Return (Some (round2 (f_mul v usd_to_eur)))"
proof -
  have "price_str \<noteq> []"
    using assms(3) by (auto simp: ustr_def)
  then show ?thesis
    using assms by (simp add: attempt_def convert_price_def)
qed

lemma get_price_after_retries:
  assumes "k < nat retries"
    and "\<forall>i<k. attempt (http_get e (gets w + i) url) = Retry"
    and "attempt (http_get e (gets w + k) url) = Return p"
  shows "get_price e url retries w = (p, w\<lparr>gets := gets w + k + 1\<rparr>)"
  unfolding get_price_def using assms by (intro get_price_loop_after_retries) simp_all

lemma get_price_12_34:
  assumes "0 < retries"
  shows "get_price (env_const (price_body (ustr ''$12.34''))) url retries w =
    (Some (rnd64 (1148 / 100)), w\<lparr>gets := gets w + 1\<rparr>)"
proof -
  have reply: "http_get (env_const (price_body (ustr ''$12.34''))) (gets w + 0) url =
      price_body (ustr ''$12.34'')"
    by (simp add: env_const_def env_of_def)
  have "attempt (price_body (ustr ''$12.34'')) = Return (convert_price (ustr ''$12.34''))"
    by (rule attempt_price_body) (simp add: ustr_def)
  then have "attempt (price_body (ustr ''$12.34'')) = Return (Some (rnd64 (1148 / 100)))"
    by (simp only: convert_price_12_34)
  then have "attempt (http_get (env_const (price_body (ustr ''$12.34''))) (gets w + 0) url) =
      Return (Some (rnd64 (1148 / 100)))"
    by (simp only: reply)
  then have "get_price (env_const (price_body (ustr ''$12.34''))) url retries w =
      (Some (rnd64 (1148 / 100)), w\<lparr>gets := gets w + 0 + 1\<rparr>)"
    using assms by (intro get_price_after_retries) simp_all
  then show ?thesis by (simp only: add_0_right)
qed

lemma convert_price_100: "convert_price (ustr ''100,00'' @ [euro]) = Some (Fin 100)"
  by (simp add: convert_price_def clean_price_def string_eval parse_eval) (simp add: float_eval)

lemma convert_price_105: "convert_price (ustr ''105,00'' @ [euro]) = Some (Fin 105)"
  by (simp add: convert_price_def clean_price_def string_eval parse_eval) (simp add: float_eval)

lemma convert_price_112: "convert_price (ustr ''112,00'' @ [euro]) = Some (Fin 112)"
  by (simp add: convert_price_def clean_price_def string_eval parse_eval) (simp add: float_eval)

lemma convert_price_5: "convert_price (ustr ''5,00'' @ [euro]) = Some (Fin 5)"
  by (simp add: convert_price_def clean_price_def string_eval parse_eval) (simp add: float_eval)

lemma convert_price_20: "convert_price (ustr ''20,00'' @ [euro]) = Some (Fin 20)"
  by (simp add: convert_price_def clean_price_def string_eval parse_eval) (simp add: float_eval)

lemma check_100_105: "\<not> check_price_change (Some (Fin 100)) (Some (Fin 105)) 10"
  by (simp add: check_price_change_def f_sub_def float_eval)

lemma check_105_100: "\<not> check_price_change (Some (Fin 105)) (Some (Fin 100)) 10"
  by (simp add: check_price_change_def f_sub_def float_eval)

lemma check_100_112: "check_price_change (Some (Fin 100)) (Some (Fin 112)) 10"
  by (simp add: check_price_change_def f_sub_def float_eval)

lemma check_5_0: "\<not> check_price_change (Some (Fin 5)) (Some (Fin 0)) 10"
  by (simp add: check_price_change_def f_sub_def float_eval)


section \<open>Facts about the notifications and the monitoring loop\<close>

lemma f_ne_same: "x \<noteq> NaN \<Longrightarrow> \<not> f_ne x x"
  by (simp add: f_ne_def)

lemma requests_post_sent:
  "sent (snd (requests_post e url data w)) = sent w @ [(url, data)] \<and>
   files (snd (requests_post e url data w)) = files w \<and>
   logs (snd (requests_post e url data w)) = logs w \<and>
   gets (snd (requests_post e url data w)) = gets w"
  by (simp add: requests_post_def split: post_reply.splits)

lemma send_ifttt_notification_fst:
  "fst (send_ifttt_notification cfg e name new old w) =
     (if http_post e (length (sent w)) = PostRaises then Some RequestException else None)"
  by (simp add: send_ifttt_notification_def requests_post_def split: post_reply.splits)

lemma send_ifttt_notification_snd:
  "sent (snd (send_ifttt_notification cfg e name new old w)) =
     sent w @ [(IFTTT_URL cfg,
       [(ustr ''value1'', name), (ustr ''value2'', repr_f new @ [32, euro]),
        (ustr ''value3'', repr_f old @ [32, euro])])] \<and>
   files (snd (send_ifttt_notification cfg e name new old w)) = files w \<and>
   logs (snd (send_ifttt_notification cfg e name new old w)) = logs w \<and>
   gets (snd (send_ifttt_notification cfg e name new old w)) = gets w"
  by (simp add: send_ifttt_notification_def requests_post_def split: post_reply.splits)

lemma send_error_notification_fst: "fst (send_error_notification cfg e msg w) = None"
  by (simp add: send_error_notification_def requests_post_def split: post_reply.splits)

lemma log_price_change_other:
  "sent (snd (log_price_change cfg e name old new w)) = sent w \<and>
   gets (snd (log_price_change cfg e name old new w)) = gets w"
  by (simp add: log_price_change_def Let_def append_file_def)

lemma log_price_change_files:
  "files (snd (log_price_change cfg e name old new w)) =
     (if fs_fault e (logs w) \<or>
         contains (repr_f new @ [32, euro]) (last_line_of w (log_file_name cfg name))
      then files w
      else files (append_file w (log_file_name cfg name)
                    (log_entry old new (strftime (clock e (logs w))))))"
  by (simp add: log_price_change_def Let_def append_file_def)

lemma monitor_item_unavailable:
  "get_price e url default_retries w = (None, w1) \<Longrightarrow>
   monitor_item cfg e (bp, w) (name, url) = (None, bp, w1)"
  by (simp add: monitor_item_def)

lemma monitor_item_same:
  "get_price e url default_retries w = (Some cur, w1) \<Longrightarrow>
   \<not> f_ne cur (case bp name of None \<Rightarrow> cur | Some p \<Rightarrow> p) \<Longrightarrow>
   monitor_item cfg e (bp, w) (name, url) = (None, bp, w1)"
  by (simp add: monitor_item_def)

lemma monitor_item_changed:
  assumes gp: "get_price e url default_retries w = (Some cur, w1)"
    and old: "old = (case bp name of None \<Rightarrow> cur | Some p \<Rightarrow> p)"
    and ne: "f_ne cur old"
  shows "monitor_item cfg e (bp, w) (name, url) =
     (case log_price_change cfg e name old cur w1 of
        (Some ex, w2) \<Rightarrow> (Some ex, bp, w2)
      | (None, w2) \<Rightarrow>
          if check_price_change (Some old) (Some cur) 10 then
            (case send_ifttt_notification cfg e name cur old w2 of
               (Some ex, w3) \<Rightarrow> (Some ex, bp, w3)
             | (None, w3) \<Rightarrow> (None, (bp(name \<mapsto> cur)), w3))
          else (None, (bp(name \<mapsto> cur)), w2))"
  using gp ne unfolding old by (simp add: monitor_item_def Let_def)

text \<open>A detected change that is too small to notify.\<close>

lemma monitor_item_quiet:
  assumes "get_price e url default_retries w = (Some cur, w1)"
    and "old = (case bp name of None \<Rightarrow> cur | Some p \<Rightarrow> p)" "f_ne cur old"
    and "\<not> fs_fault e (logs w1)" "\<not> check_price_change (Some old) (Some cur) 10"
  shows "monitor_item cfg e (bp, w) (name, url) =
    (None, bp(name \<mapsto> cur), snd (log_price_change cfg e name old cur w1))"
proof -
  obtain r w2 where l: "log_price_change cfg e name old cur w1 = (r, w2)"
    by (cases "log_price_change cfg e name old cur w1")
  then have "r = None"
    using log_price_change_fst [of cfg e name old cur w1] assms(4) by simp
  then show ?thesis
    using monitor_item_changed [of e url w cur w1 old bp name cfg] assms l by simp
qed

text \<open>A detected change that is notified.\<close>

lemma monitor_item_loud:
  assumes "get_price e url default_retries w = (Some cur, w1)"
    and "old = (case bp name of None \<Rightarrow> cur | Some p \<Rightarrow> p)" "f_ne cur old"
    and "\<not> fs_fault e (logs w1)" "check_price_change (Some old) (Some cur) 10"
  shows "monitor_item cfg e (bp, w) (name, url) =
    (if http_post e (length (sent w1)) = PostRaises
     then (Some RequestException, bp,
           snd (send_ifttt_notification cfg e name cur old
                  (snd (log_price_change cfg e name old cur w1))))
     else (None, bp(name \<mapsto> cur),
           snd (send_ifttt_notification cfg e name cur old
                  (snd (log_price_change cfg e name old cur w1)))))"
proof -
  obtain r w2 where l: "log_price_change cfg e name old cur w1 = (r, w2)"
    by (cases "log_price_change cfg e name old cur w1")
  then have r: "r = None"
    using log_price_change_fst [of cfg e name old cur w1] assms(4) by simp
  have s2: "sent w2 = sent w1"
    using log_price_change_other [of cfg e name old cur w1] l by simp
  obtain q w3 where n: "send_ifttt_notification cfg e name cur old w2 = (q, w3)"
    by (cases "send_ifttt_notification cfg e name cur old w2")
  then have q: "q = (if http_post e (length (sent w1)) = PostRaises
      then Some RequestException else None)"
    using send_ifttt_notification_fst [of cfg e name cur old w2] s2 by simp
  show ?thesis
    using monitor_item_changed [of e url w cur w1 old bp name cfg] assms l r n q by simp
qed


lemma get_price_const:
  "attempt r = Return p \<Longrightarrow>
   get_price (env_const r) url default_retries w = (p, w\<lparr>gets := gets w + 1\<rparr>)"
  by (rule get_price_first) (simp add: env_const_def env_of_def)

lemma get_price_zero:
  "get_price (env_const (price_body (ustr ''0,00'' @ [euro]))) url default_retries w =
     (Some (Fin 0), w\<lparr>gets := gets w + 1\<rparr>)"
  by (rule get_price_const) (simp add: attempt_price_body convert_price_zero)

lemma get_price_no_success:
  "get_price (env_const (Body no_success)) url default_retries w = (None, w\<lparr>gets := gets w + 3\<rparr>)"
proof -
  have "attempt (http_get (env_const (Body no_success)) (gets w + i) url) = Retry" for i
    by (simp add: env_const_def env_of_def failed_reply_retry failed_reply_def no_success_def
        dict_get_def)
  then show ?thesis
    using get_price_loop_all_retry [of 3 "env_const (Body no_success)" w url]
    by (simp add: get_price_def default_retries_def)
qed

section \<open>Example runs of \<open>main\<close>\<close>

lemma last_line_of_gets [simp]: "last_line_of (w\<lparr>gets := k\<rparr>) f = last_line_of w f"
  by (simp add: last_line_of_def)

lemma repr_f_112: "repr_f (Fin 112) = ustr ''112.0''"
  by (simp add: repr_eval float_eval ustr_def)

lemma check_price_change_some:
  "check_price_change (Some old) (Some cur) t = f_ge_int (f_abs (f_sub cur old)) t"
  by (simp add: check_price_change_def)

lemma main_one_item:
  "main config0 e (Suc k) w =
     (case monitor_item config0 e (init_item e (Map.empty, w) (skin, skin_url)) (skin, skin_url) of
        (Some ex, st1) \<Rightarrow> (Some ex, st1)
      | (None, st1) \<Rightarrow> monitor_cycles config0 e k st1)"
  by (simp add: main_def main_init_def config0_def split: prod.splits option.splits)

lemma monitor_cycles_one_item:
  "monitor_cycles config0 e (Suc k) st =
     (case monitor_item config0 e st (skin, skin_url) of
        (Some ex, st1) \<Rightarrow> (Some ex, st1)
      | (None, st1) \<Rightarrow> monitor_cycles config0 e k st1)"
  by (simp add: config0_def split: prod.splits option.splits)

lemma attempt_100: "attempt (price_body (ustr ''100,00'' @ [euro])) = Return (Some (Fin 100))"
  by (simp add: attempt_price_body convert_price_100)

lemma attempt_105: "attempt (price_body (ustr ''105,00'' @ [euro])) = Return (Some (Fin 105))"
  by (simp add: attempt_price_body convert_price_105)

lemma attempt_112: "attempt (price_body (ustr ''112,00'' @ [euro])) = Return (Some (Fin 112))"
  by (simp add: attempt_price_body convert_price_112)

lemma attempt_5: "attempt (price_body (ustr ''5,00'' @ [euro])) = Return (Some (Fin 5))"
  by (simp add: attempt_price_body convert_price_5)

lemma attempt_20: "attempt (price_body (ustr ''20,00'' @ [euro])) = Return (Some (Fin 20))"
  by (simp add: attempt_price_body convert_price_20)

lemma env_updown_get:
  "http_get env_updown n url =
     (if n = 0 then price_body (ustr ''100,00'' @ [euro])
      else if n = 1 then price_body (ustr ''105,00'' @ [euro])
      else price_body (ustr ''100,00'' @ [euro]))"
  "\<not> fs_fault env_updown n"
  by (simp_all add: env_updown_def env_of_def)

text \<open>A run of the prices: start at 100, up to 105, back to 100.\<close>

lemma updown_init:
  "init_item env_updown (Map.empty, world0) (skin, skin_url) =
     ([skin \<mapsto> Fin 100], world0\<lparr>gets := 1\<rparr>)"
proof -
  have "get_price env_updown skin_url default_retries world0 =
      (Some (Fin 100), world0\<lparr>gets := gets world0 + 1\<rparr>)"
    by (rule get_price_first) (simp add: env_updown_get world0_def attempt_100)
  then show ?thesis
    by (simp add: init_item_def f_truthy_def world0_def)
qed

lemma updown_first:
  "monitor_item config0 env_updown ([skin \<mapsto> Fin 100], world0\<lparr>gets := 1\<rparr>) (skin, skin_url) =
     (None, [skin \<mapsto> Fin 105],
      snd (log_price_change config0 env_updown skin (Fin 100) (Fin 105) (world0\<lparr>gets := 2\<rparr>)))"
proof -
  have gp: "get_price env_updown skin_url default_retries (world0\<lparr>gets := 1\<rparr>) =
      (Some (Fin 105), world0\<lparr>gets := 2\<rparr>)"
    using get_price_first [of env_updown "world0\<lparr>gets := 1\<rparr>" skin_url "Some (Fin 105)"]
    by (simp add: env_updown_get attempt_105)
  have "monitor_item config0 env_updown ([skin \<mapsto> Fin 100], world0\<lparr>gets := 1\<rparr>) (skin, skin_url) =
      (None, [skin \<mapsto> Fin 100](skin \<mapsto> Fin 105),
       snd (log_price_change config0 env_updown skin (Fin 100) (Fin 105) (world0\<lparr>gets := 2\<rparr>)))"
    by (rule monitor_item_quiet [OF gp])
      (simp_all add: f_ne_def env_updown_get check_100_105)
  then show ?thesis by simp
qed

lemma updown_second:
  "monitor_item config0 env_updown
     ([skin \<mapsto> Fin 105],
      snd (log_price_change config0 env_updown skin (Fin 100) (Fin 105) (world0\<lparr>gets := 2\<rparr>)))
     (skin, skin_url) =
   (None, [skin \<mapsto> Fin 100],
    (snd (log_price_change config0 env_updown skin (Fin 100) (Fin 105) (world0\<lparr>gets := 2\<rparr>)))
      \<lparr>gets := 3, logs := 2\<rparr>)"
proof -
  let ?w = "snd (log_price_change config0 env_updown skin (Fin 100) (Fin 105) (world0\<lparr>gets := 2\<rparr>))"
  have g: "gets ?w = 2" and l: "logs ?w = 1"
    using log_price_change_other [of config0 env_updown skin "Fin 100" "Fin 105" "world0\<lparr>gets := 2\<rparr>"]
      log_price_change_logs [of config0 env_updown skin "Fin 100" "Fin 105" "world0\<lparr>gets := 2\<rparr>"]
    by (simp_all add: world0_def)
  have gp: "get_price env_updown skin_url default_retries ?w = (Some (Fin 100), ?w\<lparr>gets := 3\<rparr>)"
    using get_price_first [of env_updown ?w skin_url "Some (Fin 100)"]
    by (simp add: env_updown_get attempt_100 g)
  have fresh: "\<not> contains (repr_f (Fin 105) @ [32, euro])
      (last_line_of (world0\<lparr>gets := 2\<rparr>) (log_file_name config0 skin))"
    by (simp add: last_line_world0)
  have "contains (repr_f (Fin 100) @ [32, euro]) (last_line_of ?w (log_file_name config0 skin))"
    by (rule last_line_after_log_old [OF _ fresh]) (simp add: env_updown_get)
  then have quiet: "snd (log_price_change config0 env_updown skin (Fin 105) (Fin 100) (?w\<lparr>gets := 3\<rparr>)) =
      ?w\<lparr>gets := 3, logs := 2\<rparr>"
    by (simp del: repr_f.simps add: log_price_change_suppressed l)
  have "monitor_item config0 env_updown ([skin \<mapsto> Fin 105], ?w) (skin, skin_url) =
      (None, [skin \<mapsto> Fin 105](skin \<mapsto> Fin 100),
       snd (log_price_change config0 env_updown skin (Fin 105) (Fin 100) (?w\<lparr>gets := 3\<rparr>)))"
    by (rule monitor_item_quiet [OF gp])
      (simp_all add: f_ne_def env_updown_get check_105_100)
  then show ?thesis by (simp only: quiet) simp
qed

lemma env_jump_get:
  "http_get (env_jump answer) n url = price_body (ustr ''112,00'' @ [euro])"
  "http_post (env_jump answer) n = answer"
  "\<not> fs_fault (env_jump answer) n"
  "clock (env_jump answer) 0 = clock (env_of r p) 0"
  by (simp_all add: env_jump_def env_of_def)

lemma get_price_jump:
  "get_price (env_jump answer) skin_url default_retries world0 =
     (Some (Fin 112), world0\<lparr>gets := 1\<rparr>)"
  using get_price_first [of "env_jump answer" world0 skin_url "Some (Fin 112)"]
  by (simp add: env_jump_get attempt_112 world0_def)

lemma env_late_get:
  "http_get env_late n url =
     (if n < 3 then Raises
      else if n = 3 then price_body (ustr ''5,00'' @ [euro])
      else price_body (ustr ''20,00'' @ [euro]))"
  by (simp add: env_late_def env_of_def)

lemma late_init:
  "init_item env_late (Map.empty, world0) (skin, skin_url) = (Map.empty, world0\<lparr>gets := 3\<rparr>)"
proof -
  have "attempt (http_get env_late (gets world0 + i) skin_url) = Retry" if "i < 3" for i
    using that by (simp add: env_late_get world0_def attempt_def)
  then have "get_price env_late skin_url default_retries world0 =
      (None, world0\<lparr>gets := gets world0 + 3\<rparr>)"
    unfolding get_price_def default_retries_def
    using get_price_loop_all_retry [of 3 env_late world0 skin_url] by simp
  then show ?thesis
    by (simp add: init_item_def world0_def)
qed

text \<open>The run 100, 105, 100: the change back to 100 leaves the files as they are.\<close>

lemma main_updown:
  "fst (main config0 env_updown 2 world0) = None \<and>
   fst (snd (main config0 env_updown 1 world0)) skin = Some (Fin 105) \<and>
   fst (snd (main config0 env_updown 2 world0)) skin = Some (Fin 100) \<and>
   f_ne (Fin 100) (Fin 105) \<and>
   logs (snd (snd (main config0 env_updown 1 world0))) = 1 \<and>
   logs (snd (snd (main config0 env_updown 2 world0))) = 2 \<and>
   files (snd (snd (main config0 env_updown 2 world0))) =
     files (snd (snd (main config0 env_updown 1 world0)))"
proof -
  let ?w = "snd (log_price_change config0 env_updown skin (Fin 100) (Fin 105) (world0\<lparr>gets := 2\<rparr>))"
  have fuel: "main config0 env_updown 1 world0 = main config0 env_updown (Suc 0) world0"
    "main config0 env_updown 2 world0 = main config0 env_updown (Suc (Suc 0)) world0"
    by (simp_all only: One_nat_def numeral_2_eq_2)
  have "main config0 env_updown (Suc 0) world0 = (None, [skin \<mapsto> Fin 105], ?w)"
    by (simp only: main_one_item updown_init updown_first prod.case option.case
        monitor_cycles.simps)
  then have one: "main config0 env_updown 1 world0 = (None, [skin \<mapsto> Fin 105], ?w)"
    by (simp only: fuel)
  have "main config0 env_updown (Suc (Suc 0)) world0 =
      (None, [skin \<mapsto> Fin 100], ?w\<lparr>gets := 3, logs := 2\<rparr>)"
    by (simp only: main_one_item monitor_cycles_one_item updown_init updown_first updown_second
        prod.case option.case monitor_cycles.simps(1))
  then have two: "main config0 env_updown 2 world0 =
      (None, [skin \<mapsto> Fin 100], ?w\<lparr>gets := 3, logs := 2\<rparr>)"
    by (simp only: fuel)
  have l: "logs ?w = 1"
    using log_price_change_logs [of config0 env_updown skin "Fin 100" "Fin 105" "world0\<lparr>gets := 2\<rparr>"]
    by (simp add: world0_def)
  show ?thesis
    unfolding one two by (simp add: l f_ne_def)
qed

text \<open>The run that starts at 100 with a log that ends at 105, and then fetches 105.\<close>

lemma contains_arrow:
  "contains (repr_f x @ [32, euro]) (ustr ''-> '' @ repr_f x @ [32, euro])"
  using contains_append [of "repr_f x @ [32, euro]" "ustr ''-> ''" "[]"] by simp

lemma logged_last_line:
  "contains (ustr ''-> '' @ repr_f (Fin 105) @ [32, euro])
     (last_line_of (world_logged\<lparr>gets := k\<rparr>) (log_file_name config0 skin))"
proof -
  have "contains (ustr ''-> 105.0 '' @ [euro])
     (last_line_of (world_logged\<lparr>gets := k\<rparr>) (ustr ''logs/AK-47__Redline.txt''))"
    by (rule last_line_after_line
        [of _ _ "[]" "ustr ''100.0 '' @ [euro] @ ustr '' (2024-03-06 18:30:00) ''" _
            "ustr '' (2024-03-06 18:30:00)''"])
      (simp_all add: world_logged_def world0_def ustr_def newline_def carriage_return_def
        euro_def is_space_def)
  then show ?thesis
    by (simp del: repr_f.simps add: repr_f_105 log_file_name_skin) (simp add: ustr_def)
qed

lemma logged_init:
  "init_item env_updown (Map.empty, world_logged) (skin, skin_url) =
     ([skin \<mapsto> Fin 100], world_logged\<lparr>gets := 1\<rparr>)"
proof -
  have "get_price env_updown skin_url default_retries world_logged =
      (Some (Fin 100), world_logged\<lparr>gets := gets world_logged + 1\<rparr>)"
    by (rule get_price_first) (simp add: env_updown_get world_logged_def world0_def attempt_100)
  then show ?thesis
    by (simp add: init_item_def f_truthy_def world_logged_def world0_def)
qed

lemma logged_get:
  "get_price env_updown skin_url default_retries (world_logged\<lparr>gets := 1\<rparr>) =
     (Some (Fin 105), world_logged\<lparr>gets := 2\<rparr>)"
  using get_price_first [of env_updown "world_logged\<lparr>gets := 1\<rparr>" skin_url "Some (Fin 105)"]
  by (simp add: env_updown_get attempt_105)

lemma logged_first:
  "monitor_item config0 env_updown ([skin \<mapsto> Fin 100], world_logged\<lparr>gets := 1\<rparr>)
     (skin, skin_url) =
   (None, [skin \<mapsto> Fin 105], world_logged\<lparr>gets := 2, logs := 1\<rparr>)"
proof -
  have "contains (repr_f (Fin 105) @ [32, euro])
      (last_line_of (world_logged\<lparr>gets := 2\<rparr>) (log_file_name config0 skin))"
    using contains_trans [OF contains_arrow logged_last_line] .
  then have quiet: "snd (log_price_change config0 env_updown skin (Fin 100) (Fin 105)
      (world_logged\<lparr>gets := 2\<rparr>)) = world_logged\<lparr>gets := 2, logs := 1\<rparr>"
    by (simp del: repr_f.simps add: log_price_change_suppressed world_logged_def world0_def)
  have "monitor_item config0 env_updown ([skin \<mapsto> Fin 100], world_logged\<lparr>gets := 1\<rparr>)
      (skin, skin_url) =
      (None, [skin \<mapsto> Fin 100](skin \<mapsto> Fin 105),
       snd (log_price_change config0 env_updown skin (Fin 100) (Fin 105)
              (world_logged\<lparr>gets := 2\<rparr>)))"
    by (rule monitor_item_quiet [OF logged_get])
      (simp_all add: f_ne_def env_updown_get check_100_105)
  then show ?thesis by (simp only: quiet) simp
qed

subsection \<open>Repeated calls of \<open>log_price_change\<close>\<close>

lemma writes_files:
  "files (snd (log_price_change cfg e name old new w)) (log_file_name cfg name) \<noteq>
     files w (log_file_name cfg name) \<longleftrightarrow> writes cfg e name new w"
  by (simp add: writes_def log_price_change_files append_file_def log_entry_def
      split: option.splits)

lemma not_writes_last_line:
  "\<not> writes cfg e name new w \<Longrightarrow>
   last_line_of (snd (log_price_change cfg e name old new w)) f = last_line_of w f"
  by (auto simp: writes_def log_price_change_def Let_def)

lemma log_calls_after:
  "contains (repr_f x @ [32, euro]) (last_line_of w (log_file_name cfg name)) \<Longrightarrow>
   distinct_adj (x # map snd (fst (log_calls cfg e name calls w)))"
proof (induction calls arbitrary: x w)
  case Nil
  then show ?case by simp
next
  case (Cons call rest)
  let ?w1 = "snd (log_price_change cfg e name (fst call) (snd call) w)"
  obtain written w' where r: "log_calls cfg e name rest ?w1 = (written, w')"
    by (cases "log_calls cfg e name rest ?w1")
  show ?case
  proof (cases "writes cfg e name (snd call) w")
    case True
    then have ne: "x \<noteq> snd call"
      using Cons.prems by (auto simp: writes_def)
    have "contains (repr_f (snd call) @ [32, euro]) (last_line_of ?w1 (log_file_name cfg name))"
      using True by (intro last_line_after_log) (simp add: writes_def)
    then have "distinct_adj (snd call # map snd (fst (log_calls cfg e name rest ?w1)))"
      by (rule Cons.IH)
    then show ?thesis
      using True ne r by (simp add: writes_files Let_def)
  next
    case False
    then have "contains (repr_f x @ [32, euro]) (last_line_of ?w1 (log_file_name cfg name))"
      using Cons.prems by (simp add: not_writes_last_line)
    then have "distinct_adj (x # map snd (fst (log_calls cfg e name rest ?w1)))"
      by (rule Cons.IH)
    then show ?thesis
      using False r by (simp add: writes_files Let_def)
  qed
qed

lemma log_calls_distinct_adj:
  "distinct_adj (map snd (fst (log_calls cfg e name calls w)))"
proof (induction calls arbitrary: w)
  case Nil
  then show ?case by simp
next
  case (Cons call rest)
  let ?w1 = "snd (log_price_change cfg e name (fst call) (snd call) w)"
  obtain written w' where r: "log_calls cfg e name rest ?w1 = (written, w')"
    by (cases "log_calls cfg e name rest ?w1")
  show ?case
  proof (cases "writes cfg e name (snd call) w")
    case True
    then have "contains (repr_f (snd call) @ [32, euro]) (last_line_of ?w1 (log_file_name cfg name))"
      by (intro last_line_after_log) (simp add: writes_def)
    then have "distinct_adj (snd call # map snd (fst (log_calls cfg e name rest ?w1)))"
      by (rule log_calls_after)
    then show ?thesis
      using True r by (simp add: writes_files Let_def)
  next
    case False
    then show ?thesis
      using Cons.IH [of ?w1] r by (simp add: writes_files Let_def)
  qed
qed

subsection \<open>A log with a lone carriage return\<close>

lemma last_line_world_cr:
  "last_line_of world_cr (log_file_name config0 skin) = ustr ''checked''"
  by (simp add: log_file_name_skin)
    (simp add: last_line_of_def world_cr_def world0_def ustr_def euro_def newline_def
      carriage_return_def strip_def is_space_def)

lemma world_cr_fresh:
  "\<not> contains (repr_f (Fin 105) @ [32, euro])
      (last_line_of world_cr (log_file_name config0 skin))"
  by (simp del: repr_f.simps add: last_line_world_cr repr_f_105) (simp add: ustr_def euro_def)

lemma entry_100_105:
  "log_entry (Fin 100) (Fin 105) (strftime (clock (env_of r p) 0)) =
     ustr ''100.0 '' @ [euro] @ ustr '' (2024-03-07 09:05:00) -> 105.0 '' @ [euro] @
     ustr '' (2024-03-07 09:05:00)'' @ [newline]"
  by (simp del: repr_f.simps add: log_entry_def strftime_example repr_f_100 repr_f_105)
    (simp add: ustr_def)

lemma cr_get:
  "get_price env_updown skin_url default_retries (world_cr\<lparr>gets := 1\<rparr>) =
     (Some (Fin 105), world_cr\<lparr>gets := 2\<rparr>)"
  using get_price_first [of env_updown "world_cr\<lparr>gets := 1\<rparr>" skin_url "Some (Fin 105)"]
  by (simp add: env_updown_get attempt_105)

lemma cr_first:
  "fst (monitor_item config0 env_updown ([skin \<mapsto> Fin 100], world_cr\<lparr>gets := 1\<rparr>)
          (skin, skin_url)) = None"
proof -
  have "monitor_item config0 env_updown ([skin \<mapsto> Fin 100], world_cr\<lparr>gets := 1\<rparr>)
      (skin, skin_url) =
      (None, [skin \<mapsto> Fin 100](skin \<mapsto> Fin 105),
       snd (log_price_change config0 env_updown skin (Fin 100) (Fin 105)
              (world_cr\<lparr>gets := 2\<rparr>)))"
    by (rule monitor_item_quiet [OF cr_get])
      (simp_all add: f_ne_def env_updown_get check_100_105)
  then show ?thesis by (simp only: fst_conv)
qed

section \<open>The claims\<close>

text \<open>
  C5. \<open>check_price_change\<close> is symmetric in its two prices; with both prices present it
  is true exactly when \<^verbatim>\<open>abs(a - b) >= threshold\<close>, computed as Python computes it on
  floats; it is false as soon as one price is \<^verbatim>\<open>None\<close>.
\<close>

theorem check_price_change_symmetric:
  "check_price_change a b t = check_price_change b a t \<and>
   check_price_change (Some x) (Some y) t = f_ge_int (f_abs (f_sub x y)) t \<and>
   check_price_change None b t = False \<and>
   check_price_change a None t = False"
  by (cases a; cases b) (simp_all add: check_price_change_def f_abs_f_sub_commute)

theorem check_price_change_symmetric_witness:
  "check_price_change (Some (Fin 100)) (Some (Fin 112)) 10 \<and>
   check_price_change (Some (Fin 112)) (Some (Fin 100)) 10 \<and>
   \<not> check_price_change (Some (Fin 100)) (Some (Fin 105)) 10 \<and>
   \<not> check_price_change None (Some (Fin 105)) 10"
  using check_price_change_symmetric [of "Some (Fin 100)" "Some (Fin 112)" 10 "Fin 100" "Fin 105"]
  by (simp add: check_price_change_def f_sub_def float_eval)

text \<open>
  C7. When each of the \<open>retries\<close> attempts fails (the request raises, or the body has no
  valid success signal), \<open>get_price\<close> returns \<^verbatim>\<open>None\<close> after exactly \<open>retries\<close> GET
  requests, three by default; and whatever the replies are, it never issues more than
  \<open>retries\<close> requests.
\<close>

theorem get_price_exhausts_retries:
  "((\<forall>i < nat retries. failed_reply (http_get e (gets w + i) url)) \<longrightarrow>
      get_price e url retries w = (None, w\<lparr>gets := gets w + nat retries\<rparr>)) \<and>
   ((\<forall>i < 3. failed_reply (http_get e (gets w + i) url)) \<longrightarrow>
      get_price e url default_retries w = (None, w\<lparr>gets := gets w + 3\<rparr>)) \<and>
   gets (snd (get_price e url retries w)) \<le> gets w + nat retries"
proof -
  have all: "get_price e url r w = (None, w\<lparr>gets := gets w + nat r\<rparr>)"
    if "\<forall>i < nat r. failed_reply (http_get e (gets w + i) url)" for r
    unfolding get_price_def using that
    by (intro get_price_loop_all_retry failed_reply_retry) simp
  have bound: "gets (snd (get_price e url retries w)) \<le> gets w + nat retries"
    unfolding get_price_def using get_price_loop_gets by simp
  show ?thesis
    using all [of retries] all [of default_retries] bound
    by (simp add: default_retries_def)
qed

theorem get_price_exhausts_retries_witness:
  "failed_reply (Body no_success) \<and>
   get_price (env_const (Body no_success)) (ustr ''u'') default_retries world0 =
     (None, world0\<lparr>gets := 3\<rparr>) \<and>
   get_price (env_const Raises) (ustr ''u'') 5 world0 = (None, world0\<lparr>gets := 5\<rparr>)"
  using get_price_exhausts_retries [of 3 "env_const (Body no_success)" world0 "ustr ''u''"]
    get_price_exhausts_retries [of 5 "env_const Raises" world0 "ustr ''u''"]
  by (simp add: failed_reply_def no_success_def env_const_def env_of_def world0_def
      dict_get_def ustr_def)

text \<open>
  C4. \<open>log_price_change\<close> appends its line only when the stripped last line of the file
  does not contain the text \<^verbatim>\<open>{new_price} \<close> followed by the euro sign, and otherwise
  writes nothing. So a second call with the same \<open>new_price\<close> never adds a line, and in
  any sequence of calls for one item, whatever the file held before and whichever calls
  fail, no two consecutive calls that write carry the same new price: the log never gets
  two consecutive entries with the same new price. The last line is the one text mode
  gives: after a lone carriage return and the note \<^verbatim>\<open>checked\<close> the price of the entry
  before is no longer on the last line, and the next call writes.
\<close>

theorem log_price_change_no_duplicate:
  "(\<not> fs_fault e (logs w) \<longrightarrow>
     (contains (repr_f new @ [32, euro]) (last_line_of w (log_file_name cfg name)) \<longrightarrow>
        log_price_change cfg e name old new w = (None, w\<lparr>logs := logs w + 1\<rparr>)) \<and>
     (\<not> contains (repr_f new @ [32, euro]) (last_line_of w (log_file_name cfg name)) \<longrightarrow>
        log_price_change cfg e name old new w =
          (None, append_file (w\<lparr>logs := logs w + 1\<rparr>) (log_file_name cfg name)
                   (log_entry old new (strftime (clock e (logs w)))))) \<and>
     files (snd (log_price_change cfg e name old' new (snd (log_price_change cfg e name old new w)))) =
       files (snd (log_price_change cfg e name old new w))) \<and>
   distinct_adj (map snd (fst (log_calls cfg e name calls w)))"
proof (intro impI conjI)
  assume ok: "\<not> fs_fault e (logs w)"
  show "log_price_change cfg e name old new w = (None, w\<lparr>logs := logs w + 1\<rparr>)"
    if "contains (repr_f new @ [32, euro]) (last_line_of w (log_file_name cfg name))"
    using that ok log_price_change_fst [of cfg e name old new w]
      log_price_change_suppressed [of new w cfg name e old]
    by (simp add: prod_eq_iff)
  show "log_price_change cfg e name old new w =
          (None, append_file (w\<lparr>logs := logs w + 1\<rparr>) (log_file_name cfg name)
                   (log_entry old new (strftime (clock e (logs w)))))"
    if "\<not> contains (repr_f new @ [32, euro]) (last_line_of w (log_file_name cfg name))"
    using that ok log_price_change_fst [of cfg e name old new w]
      log_price_change_written [of e w new cfg name old]
    by (simp add: prod_eq_iff)
  show "files (snd (log_price_change cfg e name old' new (snd (log_price_change cfg e name old new w)))) =
       files (snd (log_price_change cfg e name old new w))"
    using last_line_after_log [OF ok, of new cfg name old]
    by (simp add: log_price_change_suppressed)
next
  show "distinct_adj (map snd (fst (log_calls cfg e name calls w)))"
    by (rule log_calls_distinct_adj)
qed

theorem log_price_change_no_duplicate_witness:
  "\<not> fs_fault (env_const Raises) (logs world0) \<and>
   log_price_change config0 (env_const Raises) skin (Fin 100) (Fin 105) world0 =
     (None, append_file (world0\<lparr>logs := 1\<rparr>) (ustr ''logs/AK-47__Redline.txt'')
        (ustr ''100.0 '' @ [euro] @ ustr '' (2024-03-07 09:05:00) -> 105.0 '' @ [euro] @
         ustr '' (2024-03-07 09:05:00)'' @ [newline])) \<and>
   files (snd (log_price_change config0 (env_const Raises) skin (Fin 103) (Fin 105)
            (snd (log_price_change config0 (env_const Raises) skin (Fin 100) (Fin 105) world0)))) =
     files (snd (log_price_change config0 (env_const Raises) skin (Fin 100) (Fin 105) world0)) \<and>
   fst (log_calls config0 (env_const Raises) skin
          [(Fin 100, Fin 105), (Fin 103, Fin 105)] world0) = [(Fin 100, Fin 105)] \<and>
   distinct_adj (map snd (fst (log_calls config0 (env_const Raises) skin
          [(Fin 100, Fin 105), (Fin 103, Fin 105)] world0))) \<and>
   last_line_of world_cr (ustr ''logs/AK-47__Redline.txt'') = ustr ''checked'' \<and>
   log_price_change config0 (env_const Raises) skin (Fin 100) (Fin 105) world_cr =
     (None, append_file (world_cr\<lparr>logs := 1\<rparr>) (ustr ''logs/AK-47__Redline.txt'')
        (ustr ''100.0 '' @ [euro] @ ustr '' (2024-03-07 09:05:00) -> 105.0 '' @ [euro] @
         ustr '' (2024-03-07 09:05:00)'' @ [newline]))"
proof -
  let ?e = "env_const Raises"
  let ?w1 = "snd (log_price_change config0 ?e skin (Fin 100) (Fin 105) world0)"
  have ok: "\<not> fs_fault ?e (logs world0)"
    by (simp add: env_const_def env_of_def)
  have fresh: "\<not> contains (repr_f (Fin 105) @ [32, euro])
      (last_line_of world0 (log_file_name config0 skin))"
    by (simp add: last_line_world0)
  have entry: "log_entry (Fin 100) (Fin 105) (strftime (clock ?e (logs world0))) =
      ustr ''100.0 '' @ [euro] @ ustr '' (2024-03-07 09:05:00) -> 105.0 '' @ [euro] @
      ustr '' (2024-03-07 09:05:00)'' @ [newline]"
    by (simp del: repr_f.simps
        add: log_entry_def env_const_def world0_def strftime_example repr_f_100 repr_f_105)
      (simp add: ustr_def)
  have one: "logs world0 + 1 = 1"
    by (simp add: world0_def)
  have written: "log_price_change config0 ?e skin (Fin 100) (Fin 105) world0 =
      (None, append_file (world0\<lparr>logs := logs world0 + 1\<rparr>) (log_file_name config0 skin)
         (log_entry (Fin 100) (Fin 105) (strftime (clock ?e (logs world0)))))"
    and same: "files (snd (log_price_change config0 ?e skin (Fin 103) (Fin 105) ?w1)) = files ?w1"
    and adj: "distinct_adj (map snd (fst (log_calls config0 ?e skin
          [(Fin 100, Fin 105), (Fin 103, Fin 105)] world0)))"
    using log_price_change_no_duplicate
      [of ?e world0 "Fin 105" config0 skin "Fin 100" "Fin 103"
          "[(Fin 100, Fin 105), (Fin 103, Fin 105)]"] ok fresh
    by blast+
  have first: "files ?w1 (log_file_name config0 skin) \<noteq> files world0 (log_file_name config0 skin)"
    using ok fresh by (simp add: writes_files writes_def)
  have calls: "fst (log_calls config0 ?e skin
          [(Fin 100, Fin 105), (Fin 103, Fin 105)] world0) = [(Fin 100, Fin 105)]"
    using first same by (simp add: Let_def)
  have run: "\<not> fs_fault (env_const Raises) (logs world0) \<and>
   log_price_change config0 (env_const Raises) skin (Fin 100) (Fin 105) world0 =
     (None, append_file (world0\<lparr>logs := 1\<rparr>) (ustr ''logs/AK-47__Redline.txt'')
        (ustr ''100.0 '' @ [euro] @ ustr '' (2024-03-07 09:05:00) -> 105.0 '' @ [euro] @
         ustr '' (2024-03-07 09:05:00)'' @ [newline])) \<and>
   files (snd (log_price_change config0 (env_const Raises) skin (Fin 103) (Fin 105)
            (snd (log_price_change config0 (env_const Raises) skin (Fin 100) (Fin 105) world0)))) =
     files (snd (log_price_change config0 (env_const Raises) skin (Fin 100) (Fin 105) world0)) \<and>
   fst (log_calls config0 (env_const Raises) skin
          [(Fin 100, Fin 105), (Fin 103, Fin 105)] world0) = [(Fin 100, Fin 105)] \<and>
   distinct_adj (map snd (fst (log_calls config0 (env_const Raises) skin
          [(Fin 100, Fin 105), (Fin 103, Fin 105)] world0)))"
    using ok written same calls adj by (simp only: entry log_file_name_skin one simp_thms)
  have cr: "log_price_change config0 (env_const Raises) skin (Fin 100) (Fin 105) world_cr =
     (None, append_file (world_cr\<lparr>logs := 1\<rparr>) (ustr ''logs/AK-47__Redline.txt'')
        (ustr ''100.0 '' @ [euro] @ ustr '' (2024-03-07 09:05:00) -> 105.0 '' @ [euro] @
         ustr '' (2024-03-07 09:05:00)'' @ [newline]))"
  proof -
    let ?e = "env_const Raises"
    have ok: "\<not> fs_fault ?e (logs world_cr)"
      by (simp add: env_const_def env_of_def)
    have fresh: "\<not> contains (repr_f (Fin 105) @ [32, euro])
        (last_line_of world_cr (log_file_name config0 skin))"
      by (rule world_cr_fresh)
    have entry: "log_entry (Fin 100) (Fin 105) (strftime (clock ?e (logs world_cr))) =
        ustr ''100.0 '' @ [euro] @ ustr '' (2024-03-07 09:05:00) -> 105.0 '' @ [euro] @
        ustr '' (2024-03-07 09:05:00)'' @ [newline]"
      using entry_100_105 [of "\<lambda>n. Raises" "\<lambda>n. Status 200"]
      by (simp add: env_const_def world_cr_def world0_def)
    have one: "logs world_cr + 1 = 1"
      by (simp add: world_cr_def world0_def)
    have "log_price_change config0 ?e skin (Fin 100) (Fin 105) world_cr =
        (None, append_file (world_cr\<lparr>logs := logs world_cr + 1\<rparr>) (log_file_name config0 skin)
           (log_entry (Fin 100) (Fin 105) (strftime (clock ?e (logs world_cr)))))"
      using log_price_change_no_duplicate
        [of ?e world_cr "Fin 105" config0 skin "Fin 100" "Fin 103" "[]"] ok fresh
      by blast
    then show ?thesis
      by (simp only: entry log_file_name_skin one)
  qed
  have note_line: "last_line_of world_cr (ustr ''logs/AK-47__Redline.txt'') = ustr ''checked''"
    using last_line_world_cr by (simp only: log_file_name_skin)
  show ?thesis
    using run cr note_line by blast
qed


text \<open>
  C9. The test is a substring test on the whole last line. The write is suppressed
  whenever the last line contains the formatted new price: also when the new price is the
  old price of the entry before (a change \<open>old \<rightarrow> new\<close> followed by \<open>new \<rightarrow> old\<close>), and when
  its text is the end of another price (after an entry with the new price \<^verbatim>\<open>110.0\<close>, the
  change to \<^verbatim>\<open>10.0\<close> is not logged). Both are genuine changes of the price: in the run
  100, 105, 100 of \<open>main\<close> the change back to 100 is logged nowhere.
\<close>

theorem log_price_change_substring_suppression:
  "(contains (repr_f new @ [32, euro]) (last_line_of w (log_file_name cfg name)) \<longrightarrow>
      files (snd (log_price_change cfg e name old new w)) = files w) \<and>
   (\<not> fs_fault e (logs w) \<and>
    \<not> contains (repr_f new @ [32, euro]) (last_line_of w (log_file_name cfg name)) \<longrightarrow>
      files (snd (log_price_change cfg e name new old (snd (log_price_change cfg e name old new w)))) =
        files (snd (log_price_change cfg e name old new w))) \<and>
   (\<not> fs_fault e (logs w) \<longrightarrow>
      f_ne (Fin 10) (Fin 110) \<and>
      files (snd (log_price_change cfg e name (Fin 110) (Fin 10)
               (snd (log_price_change cfg e name old (Fin 110) w)))) =
        files (snd (log_price_change cfg e name old (Fin 110) w)))"
proof (intro conjI impI)
  show "files (snd (log_price_change cfg e name old new w)) = files w"
    if "contains (repr_f new @ [32, euro]) (last_line_of w (log_file_name cfg name))"
    using that by (simp add: log_price_change_suppressed)
  show "files (snd (log_price_change cfg e name new old (snd (log_price_change cfg e name old new w)))) =
        files (snd (log_price_change cfg e name old new w))"
    if "\<not> fs_fault e (logs w) \<and>
        \<not> contains (repr_f new @ [32, euro]) (last_line_of w (log_file_name cfg name))"
    using that last_line_after_log_old [of e w new cfg name old]
    by (simp add: log_price_change_suppressed)
  show "f_ne (Fin 10) (Fin 110)"
    by (rule f_ne_10_110)
  show "files (snd (log_price_change cfg e name (Fin 110) (Fin 10)
               (snd (log_price_change cfg e name old (Fin 110) w)))) =
        files (snd (log_price_change cfg e name old (Fin 110) w))"
    if ok: "\<not> fs_fault e (logs w)"
  proof -
    have "contains (repr_f (Fin 10) @ [32, euro])
        (last_line_of (snd (log_price_change cfg e name old (Fin 110) w)) (log_file_name cfg name))"
      using contains_trans [OF tag_10_in_tag_110 last_line_after_log [OF ok]] .
    then show ?thesis
      by (simp del: repr_f.simps add: log_price_change_suppressed)
  qed
qed

theorem log_price_change_substring_suppression_witness:
  "log_price_change config0 (env_const Raises) skin (Fin 100) (Fin 110) world0 =
     (None, append_file (world0\<lparr>logs := 1\<rparr>) (ustr ''logs/AK-47__Redline.txt'')
        (ustr ''100.0 '' @ [euro] @ ustr '' (2024-03-07 09:05:00) -> 110.0 '' @ [euro] @
         ustr '' (2024-03-07 09:05:00)'' @ [newline])) \<and>
   f_ne (Fin 10) (Fin 110) \<and>
   files (snd (log_price_change config0 (env_const Raises) skin (Fin 110) (Fin 10)
            (snd (log_price_change config0 (env_const Raises) skin (Fin 100) (Fin 110) world0)))) =
     files (snd (log_price_change config0 (env_const Raises) skin (Fin 100) (Fin 110) world0)) \<and>
   f_ne (Fin 100) (Fin 110) \<and>
   files (snd (log_price_change config0 (env_const Raises) skin (Fin 110) (Fin 100)
            (snd (log_price_change config0 (env_const Raises) skin (Fin 100) (Fin 110) world0)))) =
     files (snd (log_price_change config0 (env_const Raises) skin (Fin 100) (Fin 110) world0)) \<and>
   fst (snd (main config0 env_updown 1 world0)) skin = Some (Fin 105) \<and>
   fst (snd (main config0 env_updown 2 world0)) skin = Some (Fin 100) \<and>
   f_ne (Fin 100) (Fin 105) \<and>
   files (snd (snd (main config0 env_updown 2 world0))) =
     files (snd (snd (main config0 env_updown 1 world0))) \<and>
   files (snd (log_price_change config0 (env_const Raises) skin (Fin 100) (Fin 105) world_cr))
        (log_file_name config0 skin) \<noteq> files world_cr (log_file_name config0 skin)"
proof -
  let ?e = "env_const Raises"
  have ok: "\<not> fs_fault ?e (logs world0)"
    by (simp add: env_const_def env_of_def)
  have fresh: "\<not> contains (repr_f (Fin 110) @ [32, euro])
      (last_line_of world0 (log_file_name config0 skin))"
    by (simp add: last_line_world0)
  have entry: "log_entry (Fin 100) (Fin 110) (strftime (clock ?e (logs world0))) =
      ustr ''100.0 '' @ [euro] @ ustr '' (2024-03-07 09:05:00) -> 110.0 '' @ [euro] @
      ustr '' (2024-03-07 09:05:00)'' @ [newline]"
    by (simp del: repr_f.simps
        add: log_entry_def env_const_def world0_def strftime_example repr_f_100 repr_f_110)
      (simp add: ustr_def)
  have one: "logs world0 + 1 = 1"
    by (simp add: world0_def)
  have written: "log_price_change config0 ?e skin (Fin 100) (Fin 110) world0 =
      (None, append_file (world0\<lparr>logs := logs world0 + 1\<rparr>) (log_file_name config0 skin)
         (log_entry (Fin 100) (Fin 110) (strftime (clock ?e (logs world0)))))"
    using ok fresh log_price_change_fst [of config0 ?e skin "Fin 100" "Fin 110" world0]
      log_price_change_written [of ?e world0 "Fin 110" config0 skin "Fin 100"]
    by (simp add: prod_eq_iff)
  have suffix: "f_ne (Fin 10) (Fin 110)"
    "files (snd (log_price_change config0 ?e skin (Fin 110) (Fin 10)
            (snd (log_price_change config0 ?e skin (Fin 100) (Fin 110) world0)))) =
     files (snd (log_price_change config0 ?e skin (Fin 100) (Fin 110) world0))"
    and returned: "files (snd (log_price_change config0 ?e skin (Fin 110) (Fin 100)
            (snd (log_price_change config0 ?e skin (Fin 100) (Fin 110) world0)))) =
     files (snd (log_price_change config0 ?e skin (Fin 100) (Fin 110) world0))"
    using log_price_change_substring_suppression
      [of "Fin 110" world0 config0 skin ?e "Fin 100"] ok fresh
    by blast+
  have ne: "f_ne (Fin 100) (Fin 110)"
    by (simp add: f_ne_def)
  have calls: "log_price_change config0 ?e skin (Fin 100) (Fin 110) world0 =
     (None, append_file (world0\<lparr>logs := 1\<rparr>) (ustr ''logs/AK-47__Redline.txt'')
        (ustr ''100.0 '' @ [euro] @ ustr '' (2024-03-07 09:05:00) -> 110.0 '' @ [euro] @
         ustr '' (2024-03-07 09:05:00)'' @ [newline])) \<and>
   f_ne (Fin 10) (Fin 110) \<and>
   files (snd (log_price_change config0 ?e skin (Fin 110) (Fin 10)
            (snd (log_price_change config0 ?e skin (Fin 100) (Fin 110) world0)))) =
     files (snd (log_price_change config0 ?e skin (Fin 100) (Fin 110) world0)) \<and>
   f_ne (Fin 100) (Fin 110) \<and>
   files (snd (log_price_change config0 ?e skin (Fin 110) (Fin 100)
            (snd (log_price_change config0 ?e skin (Fin 100) (Fin 110) world0)))) =
     files (snd (log_price_change config0 ?e skin (Fin 100) (Fin 110) world0))"
    using written suffix returned ne by (simp only: entry log_file_name_skin one simp_thms)
  have run: "log_price_change config0 (env_const Raises) skin (Fin 100) (Fin 110) world0 =
     (None, append_file (world0\<lparr>logs := 1\<rparr>) (ustr ''logs/AK-47__Redline.txt'')
        (ustr ''100.0 '' @ [euro] @ ustr '' (2024-03-07 09:05:00) -> 110.0 '' @ [euro] @
         ustr '' (2024-03-07 09:05:00)'' @ [newline])) \<and>
   f_ne (Fin 10) (Fin 110) \<and>
   files (snd (log_price_change config0 (env_const Raises) skin (Fin 110) (Fin 10)
            (snd (log_price_change config0 (env_const Raises) skin (Fin 100) (Fin 110) world0)))) =
     files (snd (log_price_change config0 (env_const Raises) skin (Fin 100) (Fin 110) world0)) \<and>
   f_ne (Fin 100) (Fin 110) \<and>
   files (snd (log_price_change config0 (env_const Raises) skin (Fin 110) (Fin 100)
            (snd (log_price_change config0 (env_const Raises) skin (Fin 100) (Fin 110) world0)))) =
     files (snd (log_price_change config0 (env_const Raises) skin (Fin 100) (Fin 110) world0)) \<and>
   fst (snd (main config0 env_updown 1 world0)) skin = Some (Fin 105) \<and>
   fst (snd (main config0 env_updown 2 world0)) skin = Some (Fin 100) \<and>
   f_ne (Fin 100) (Fin 105) \<and>
   files (snd (snd (main config0 env_updown 2 world0))) =
     files (snd (snd (main config0 env_updown 1 world0)))"
    using calls main_updown by blast
  have cr: "files (snd (log_price_change config0 (env_const Raises) skin (Fin 100) (Fin 105) world_cr))
     (log_file_name config0 skin) \<noteq> files world_cr (log_file_name config0 skin)"
  proof -
    have ok: "\<not> fs_fault (env_const Raises) (logs world_cr)"
      by (simp add: env_const_def env_of_def)
    have fresh: "\<not> contains (repr_f (Fin 105) @ [32, euro])
        (last_line_of world_cr (log_file_name config0 skin))"
      by (rule world_cr_fresh)
    show ?thesis
      using ok fresh by (simp add: writes_files writes_def)
  qed
  show ?thesis
    using run cr by blast
qed

text \<open>
  C1 (amended). When the first reply that does not fail carries a price string that
  contains a dollar sign and that \<^verbatim>\<open>float\<close> accepts after the clean-up, \<open>get_price\<close>
  returns \<^verbatim>\<open>round(parsed * 0.93, 2)\<close>. For the reply
  \<^verbatim>\<open>{"success": true, "lowest_price": "$12.34"}\<close> that is the float \<^verbatim>\<open>11.48\<close>
  (\<open>12.34 \<times> 0.93 = 11.4762\<close>), not \<^verbatim>\<open>11.47\<close>.
\<close>

theorem get_price_usd_to_eur:
  "(k < nat retries \<and> (\<forall>i<k. attempt (http_get e (gets w + i) url) = Retry) \<and>
    http_get e (gets w + k) url = Body (JObj kvs) \<and>
    truthy (dict_get kvs (ustr ''success'')) \<and>
    dict_get kvs (ustr ''lowest_price'') = JStr price_str \<and>
    contains (ustr ''$'') price_str \<and> py_float (clean_price price_str) = Some v \<longrightarrow>
      fst (get_price e url retries w) = Some (round2 (f_mul v usd_to_eur))) \<and>
   (0 < retries \<longrightarrow>
      fst (get_price (env_const (price_body (ustr ''$12.34''))) url retries w) =
        Some (rnd64 (1148 / 100))) \<and>
   repr_f (rnd64 (1148 / 100)) = ustr ''11.48''"
proof (intro conjI impI)
  assume h: "k < nat retries \<and> (\<forall>i<k. attempt (http_get e (gets w + i) url) = Retry) \<and>
    http_get e (gets w + k) url = Body (JObj kvs) \<and>
    truthy (dict_get kvs (ustr ''success'')) \<and>
    dict_get kvs (ustr ''lowest_price'') = JStr price_str \<and>
    contains (ustr ''$'') price_str \<and> py_float (clean_price price_str) = Some v"
  then have "attempt (http_get e (gets w + k) url) = Return (Some (round2 (f_mul v usd_to_eur)))"
    using attempt_usd [of kvs price_str v] by simp
  then show "fst (get_price e url retries w) = Some (round2 (f_mul v usd_to_eur))"
    using h get_price_after_retries [of k retries e w url] by simp
next
  assume "0 < retries"
  then show "fst (get_price (env_const (price_body (ustr ''$12.34''))) url retries w) =
      Some (rnd64 (1148 / 100))"
    by (simp only: get_price_12_34 fst_conv)
next
  show "repr_f (rnd64 (1148 / 100)) = ustr ''11.48''"
    by (simp only: rnd64_11_48 repr_f_11_48)
qed

theorem get_price_usd_to_eur_counterexample:
  "fst (get_price (env_const (price_body (ustr ''$12.34''))) skin_url default_retries world0) \<noteq>
     Some (rnd64 (1147 / 100))"
proof -
  have "fst (get_price (env_const (price_body (ustr ''$12.34''))) skin_url default_retries world0) =
      Some (rnd64 (1148 / 100))"
    using get_price_12_34 [of default_retries skin_url world0]
    by (simp add: default_retries_def)
  moreover have "rnd64 (1148 / 100) \<noteq> rnd64 (1147 / 100)"
    by (simp only: rnd64_11_48 rnd64_11_47) simp
  ultimately show ?thesis by simp
qed

theorem get_price_usd_to_eur_witness:
  "contains (ustr ''$'') (ustr ''$12.34'') \<and>
   py_float (clean_price (ustr ''$12.34'')) = Some (rnd64 (1234 / 100)) \<and>
   fst (get_price (env_const (price_body (ustr ''$12.34''))) skin_url 3 world0) =
     Some (round2 (f_mul (rnd64 (1234 / 100)) usd_to_eur)) \<and>
   fst (get_price (env_const (price_body (ustr ''$12.34''))) skin_url 3 world0) =
     Some (rnd64 (1148 / 100))"
proof -
  let ?e = "env_const (price_body (ustr ''$12.34''))"
  let ?kvs = "[(ustr ''success'', JBool True), (ustr ''lowest_price'', JStr (ustr ''$12.34''))]"
  have dollar: "contains (ustr ''$'') (ustr ''$12.34'')"
    by (simp add: ustr_def)
  have clean: "clean_price (ustr ''$12.34'') = ustr ''12.34''"
    by (simp add: clean_price_def string_eval)
  have parsed: "py_float (clean_price (ustr ''$12.34'')) = Some (rnd64 (1234 / 100))"
    by (simp only: clean py_float_12_34)
  have reply: "http_get ?e (gets world0 + 0) skin_url = Body (JObj ?kvs)"
    by (simp add: env_const_def env_of_def price_body_def)
  have success: "truthy (dict_get ?kvs (ustr ''success''))"
    by (simp add: dict_get_def)
  have price: "dict_get ?kvs (ustr ''lowest_price'') = JStr (ustr ''$12.34'')"
    by (simp add: dict_get_def ustr_def)
  have first: "(0::nat) < nat 3" "\<forall>i<0::nat. attempt (http_get ?e (gets world0 + i) skin_url) = Retry"
    by simp_all
  note inst = get_price_usd_to_eur [of 0 3 ?e world0 skin_url ?kvs "ustr ''$12.34''"
      "rnd64 (1234 / 100)"]
  have "fst (get_price ?e skin_url 3 world0) = Some (round2 (f_mul (rnd64 (1234 / 100)) usd_to_eur))"
    using inst first reply success price dollar parsed by blast
  moreover have "fst (get_price ?e skin_url 3 world0) = Some (rnd64 (1148 / 100))"
    using inst by simp
  ultimately show ?thesis
    using dollar parsed by blast
qed

text \<open>
  C8. When \<open>get_price\<close> returns \<^verbatim>\<open>None\<close> for an item in the monitoring loop, the
  iteration ends there: the last-known prices, the files and the notifications are as
  before (only GET requests were issued), no log call was made, and the loop goes on with
  the next item.
\<close>

theorem monitor_item_skips_unavailable:
  "fst (get_price e url default_retries w) = None \<longrightarrow>
     monitor_item cfg e (bp, w) (name, url) = (None, bp, snd (get_price e url default_retries w)) \<and>
     files (snd (get_price e url default_retries w)) = files w \<and>
     sent (snd (get_price e url default_retries w)) = sent w \<and>
     logs (snd (get_price e url default_retries w)) = logs w \<and>
     monitor_items cfg e (bp, w) ((name, url) # rest) =
       monitor_items cfg e (bp, snd (get_price e url default_retries w)) rest"
proof
  assume none: "fst (get_price e url default_retries w) = None"
  then have gp: "get_price e url default_retries w = (None, snd (get_price e url default_retries w))"
    by (simp add: prod_eq_iff)
  have item: "monitor_item cfg e (bp, w) (name, url) =
      (None, bp, snd (get_price e url default_retries w))"
    by (rule monitor_item_unavailable) (rule gp)
  then have "monitor_items cfg e (bp, w) ((name, url) # rest) =
      monitor_items cfg e (bp, snd (get_price e url default_retries w)) rest"
    by simp
  with item get_price_unchanged [of e url default_retries w]
  show "monitor_item cfg e (bp, w) (name, url) = (None, bp, snd (get_price e url default_retries w)) \<and>
     files (snd (get_price e url default_retries w)) = files w \<and>
     sent (snd (get_price e url default_retries w)) = sent w \<and>
     logs (snd (get_price e url default_retries w)) = logs w \<and>
     monitor_items cfg e (bp, w) ((name, url) # rest) =
       monitor_items cfg e (bp, snd (get_price e url default_retries w)) rest"
    by simp
qed

theorem monitor_item_skips_unavailable_witness:
  "fst (get_price (env_const (Body no_success)) skin_url default_retries world0) = None \<and>
   monitor_item config0 (env_const (Body no_success)) ([skin \<mapsto> Fin 100], world0) (skin, skin_url) =
     (None, [skin \<mapsto> Fin 100], world0\<lparr>gets := 3\<rparr>) \<and>
   monitor_items config0 (env_const (Body no_success)) ([skin \<mapsto> Fin 100], world0)
       [(skin, skin_url)] =
     (None, [skin \<mapsto> Fin 100], world0\<lparr>gets := 3\<rparr>)"
proof -
  let ?e = "env_const (Body no_success)"
  have gp: "get_price ?e skin_url default_retries world0 = (None, world0\<lparr>gets := 3\<rparr>)"
    using get_price_no_success [of skin_url world0] by (simp add: world0_def)
  then have none: "fst (get_price ?e skin_url default_retries world0) = None"
    by simp
  note inst = monitor_item_skips_unavailable
    [of ?e skin_url world0 config0 "[skin \<mapsto> Fin 100]" skin "[]"]
  have "monitor_item config0 ?e ([skin \<mapsto> Fin 100], world0) (skin, skin_url) =
      (None, [skin \<mapsto> Fin 100], snd (get_price ?e skin_url default_retries world0))"
    and "monitor_items config0 ?e ([skin \<mapsto> Fin 100], world0) [(skin, skin_url)] =
      monitor_items config0 ?e ([skin \<mapsto> Fin 100], snd (get_price ?e skin_url default_retries world0)) []"
    using inst none by blast+
  then show ?thesis
    using none by (simp add: gp)
qed

text \<open>
  C10. In the first loop of \<open>main\<close> a fetched price of \<^verbatim>\<open>0.0\<close> is treated as a
  failed fetch (\<^verbatim>\<open>if price:\<close>): nothing is stored. The monitoring loop tests
  \<^verbatim>\<open>is None\<close>, so there the price \<^verbatim>\<open>0.0\<close> is a current price like any other: a
  change to it is logged and becomes the last-known price.
\<close>

theorem zero_price_init_and_monitor:
  "(fst (get_price e url default_retries w) = None \<or>
    fst (get_price e url default_retries w) = Some (Fin 0) \<longrightarrow>
      init_item e (bp, w) (name, url) = (bp, snd (get_price e url default_retries w))) \<and>
   (fst (get_price e url default_retries w) = Some (Fin 0) \<and> bp name = Some old \<and>
    f_ne (Fin 0) old \<and> fst (monitor_item cfg e (bp, w) (name, url)) = None \<longrightarrow>
      fst (snd (monitor_item cfg e (bp, w) (name, url))) = bp(name \<mapsto> Fin 0) \<and>
      logs (snd (snd (monitor_item cfg e (bp, w) (name, url)))) = logs w + 1)"
proof (intro conjI impI)
  assume "fst (get_price e url default_retries w) = None \<or>
    fst (get_price e url default_retries w) = Some (Fin 0)"
  then show "init_item e (bp, w) (name, url) = (bp, snd (get_price e url default_retries w))"
    by (cases "get_price e url default_retries w")
      (auto simp: init_item_def f_truthy_def split: option.splits)
next
  assume h: "fst (get_price e url default_retries w) = Some (Fin 0) \<and> bp name = Some old \<and>
    f_ne (Fin 0) old \<and> fst (monitor_item cfg e (bp, w) (name, url)) = None"
  let ?w1 = "snd (get_price e url default_retries w)"
  have gp: "get_price e url default_retries w = (Some (Fin 0), ?w1)"
    using h by (simp add: prod_eq_iff)
  have old: "old = (case bp name of None \<Rightarrow> Fin 0 | Some p \<Rightarrow> p)"
    using h by simp
  have ne: "f_ne (Fin 0) old"
    using h by simp
  note step = monitor_item_changed [of e url w "Fin 0" ?w1 old bp name cfg, OF gp old ne]
  obtain r w2 where l: "log_price_change cfg e name old (Fin 0) ?w1 = (r, w2)"
    by (cases "log_price_change cfg e name old (Fin 0) ?w1")
  have w2: "logs w2 = logs w + 1"
    using log_price_change_logs [of cfg e name old "Fin 0" ?w1] l
      get_price_unchanged [of e url default_retries w] by simp
  obtain q w3 where n: "send_ifttt_notification cfg e name (Fin 0) old w2 = (q, w3)"
    by (cases "send_ifttt_notification cfg e name (Fin 0) old w2")
  have w3: "logs w3 = logs w2"
    using send_ifttt_notification_snd [of cfg e name "Fin 0" old w2] n by simp
  have ok: "fst (monitor_item cfg e (bp, w) (name, url)) = None"
    using h by simp
  show "fst (snd (monitor_item cfg e (bp, w) (name, url))) = bp(name \<mapsto> Fin 0)"
    using ok by (auto simp: step l n split: option.splits if_splits)
  show "logs (snd (snd (monitor_item cfg e (bp, w) (name, url)))) = logs w + 1"
    using ok w2 w3 by (auto simp: step l n split: option.splits if_splits)
qed

theorem zero_price_init_and_monitor_witness:
  "fst (get_price (env_const (price_body (ustr ''0,00'' @ [euro]))) skin_url default_retries world0) =
     Some (Fin 0) \<and>
   init_item (env_const (price_body (ustr ''0,00'' @ [euro]))) (Map.empty, world0) (skin, skin_url) =
     (Map.empty, world0\<lparr>gets := 1\<rparr>) \<and>
   f_ne (Fin 0) (Fin 5) \<and>
   fst (monitor_item config0 (env_const (price_body (ustr ''0,00'' @ [euro])))
          ([skin \<mapsto> Fin 5], world0) (skin, skin_url)) = None \<and>
   fst (snd (monitor_item config0 (env_const (price_body (ustr ''0,00'' @ [euro])))
          ([skin \<mapsto> Fin 5], world0) (skin, skin_url))) = [skin \<mapsto> Fin 0]"
proof -
  let ?e = "env_const (price_body (ustr ''0,00'' @ [euro]))"
  have gp: "get_price ?e skin_url default_retries world0 = (Some (Fin 0), world0\<lparr>gets := 1\<rparr>)"
    using get_price_zero [of skin_url world0] by (simp add: world0_def)
  have zero: "fst (get_price ?e skin_url default_retries world0) = Some (Fin 0)"
    using gp by simp
  have ne: "f_ne (Fin 0) (Fin 5)"
    by (simp add: f_ne_def)
  have fault: "\<not> fs_fault ?e (logs (world0\<lparr>gets := 1\<rparr>))"
    by (simp add: env_const_def env_of_def)
  have quiet: "monitor_item config0 ?e ([skin \<mapsto> Fin 5], world0) (skin, skin_url) =
      (None, [skin \<mapsto> Fin 5](skin \<mapsto> Fin 0),
       snd (log_price_change config0 ?e skin (Fin 5) (Fin 0) (world0\<lparr>gets := 1\<rparr>)))"
    by (rule monitor_item_quiet [OF gp _ _ fault]) (simp_all add: ne check_5_0)
  then have ok: "fst (monitor_item config0 ?e ([skin \<mapsto> Fin 5], world0) (skin, skin_url)) = None"
    by simp
  note inst = zero_price_init_and_monitor [of ?e skin_url world0 _ skin "Fin 5" config0]
  have "init_item ?e (Map.empty, world0) (skin, skin_url) =
      (Map.empty, snd (get_price ?e skin_url default_retries world0))"
    using inst [of Map.empty] zero by blast
  moreover have "fst (snd (monitor_item config0 ?e ([skin \<mapsto> Fin 5], world0) (skin, skin_url))) =
      [skin \<mapsto> Fin 5](skin \<mapsto> Fin 0)"
    using inst [of "[skin \<mapsto> Fin 5]"] zero ne ok by simp
  ultimately show ?thesis
    using zero ne ok by (simp add: gp)
qed

text \<open>
  C3 (amended). In a monitoring iteration that finds the fetched price different from the
  last-known one (a missing baseline counts as no change) and that ends without an
  exception: \<open>log_price_change\<close> is called; it appends its record when the last line of
  the item's log does not contain the formatted current price, and it appends nothing when
  the last entry of the log already has the current price as its new price; the
  notification is posted exactly when \<^verbatim>\<open>abs(current - old) >= 10\<close>; and the last-known
  price becomes the current price either way. The record is not always appended: when the
  log ends with an entry for 105 and the script starts again at 100, the change from 100
  to 105 adds no line.
\<close>

theorem monitor_item_on_change:
  "get_price e url default_retries w = (Some cur, w1) \<and>
   old = (case bp name of None \<Rightarrow> cur | Some p \<Rightarrow> p) \<and> f_ne cur old \<and>
   fst (monitor_item cfg e (bp, w) (name, url)) = None \<longrightarrow>
     fst (snd (monitor_item cfg e (bp, w) (name, url))) = bp(name \<mapsto> cur) \<and>
     logs (snd (snd (monitor_item cfg e (bp, w) (name, url)))) = logs w1 + 1 \<and>
     (\<not> contains (repr_f cur @ [32, euro]) (last_line_of w1 (log_file_name cfg name)) \<longrightarrow>
        files (snd (snd (monitor_item cfg e (bp, w) (name, url)))) =
          files (append_file w1 (log_file_name cfg name)
                   (log_entry old cur (strftime (clock e (logs w1)))))) \<and>
     (contains (ustr ''-> '' @ repr_f cur @ [32, euro])
        (last_line_of w1 (log_file_name cfg name)) \<longrightarrow>
        files (snd (snd (monitor_item cfg e (bp, w) (name, url)))) = files w1) \<and>
     sent (snd (snd (monitor_item cfg e (bp, w) (name, url)))) =
       (if f_ge_int (f_abs (f_sub cur old)) 10
        then sent w1 @ [(IFTTT_URL cfg,
               [(ustr ''value1'', name), (ustr ''value2'', repr_f cur @ [32, euro]),
                (ustr ''value3'', repr_f old @ [32, euro])])]
        else sent w1)"
proof
  assume h: "get_price e url default_retries w = (Some cur, w1) \<and>
   old = (case bp name of None \<Rightarrow> cur | Some p \<Rightarrow> p) \<and> f_ne cur old \<and>
   fst (monitor_item cfg e (bp, w) (name, url)) = None"
  let ?m = "monitor_item cfg e (bp, w) (name, url)"
  let ?f = "log_file_name cfg name"
  let ?w2 = "snd (log_price_change cfg e name old cur w1)"
  let ?w3 = "snd (send_ifttt_notification cfg e name cur old ?w2)"
  have gp: "get_price e url default_retries w = (Some cur, w1)"
    and old: "old = (case bp name of None \<Rightarrow> cur | Some p \<Rightarrow> p)"
    and ne: "f_ne cur old" and ok: "fst ?m = None"
    using h by blast+
  note step = monitor_item_changed [of e url w cur w1 old bp name cfg, OF gp old ne]
  have fault: "\<not> fs_fault e (logs w1)"
  proof
    assume "fs_fault e (logs w1)"
    then have "fst (log_price_change cfg e name old cur w1) = Some OSError"
      by (simp add: log_price_change_fst)
    then have "fst ?m = Some OSError"
      by (cases "log_price_change cfg e name old cur w1") (simp add: step)
    then show False using ok by simp
  qed
  have arrow: "contains (repr_f cur @ [32, euro]) (last_line_of w1 ?f)"
    if "contains (ustr ''-> '' @ repr_f cur @ [32, euro]) (last_line_of w1 ?f)"
    using contains_trans [OF contains_arrow that] .
  have w2: "logs ?w2 = logs w1 + 1" "sent ?w2 = sent w1"
    "\<not> contains (repr_f cur @ [32, euro]) (last_line_of w1 ?f) \<longrightarrow>
       files ?w2 = files (append_file w1 ?f (log_entry old cur (strftime (clock e (logs w1)))))"
    "contains (ustr ''-> '' @ repr_f cur @ [32, euro]) (last_line_of w1 ?f) \<longrightarrow>
       files ?w2 = files w1"
    using fault arrow
    by (simp_all add: log_price_change_logs log_price_change_other log_price_change_files)
  have m: "?m = (None, bp(name \<mapsto> cur),
      if check_price_change (Some old) (Some cur) 10 then ?w3 else ?w2)"
  proof (cases "check_price_change (Some old) (Some cur) 10")
    case False
    then show ?thesis
      using monitor_item_quiet [of e url w cur w1 old bp name cfg, OF gp old ne fault False]
      by simp
  next
    case True
    have loud: "?m = (if http_post e (length (sent w1)) = PostRaises
        then (Some RequestException, bp, ?w3) else (None, bp(name \<mapsto> cur), ?w3))"
      by (rule monitor_item_loud [of e url w cur w1 old bp name cfg, OF gp old ne fault True])
    then have "http_post e (length (sent w1)) \<noteq> PostRaises"
      using ok by (auto split: if_splits)
    then show ?thesis
      using loud True by simp
  qed
  have w3: "logs ?w3 = logs ?w2" "files ?w3 = files ?w2"
    "sent ?w3 = sent ?w2 @ [(IFTTT_URL cfg,
               [(ustr ''value1'', name), (ustr ''value2'', repr_f cur @ [32, euro]),
                (ustr ''value3'', repr_f old @ [32, euro])])]"
    using send_ifttt_notification_snd [of cfg e name cur old ?w2] by simp_all
  show "fst (snd ?m) = bp(name \<mapsto> cur) \<and> logs (snd (snd ?m)) = logs w1 + 1 \<and>
     (\<not> contains (repr_f cur @ [32, euro]) (last_line_of w1 ?f) \<longrightarrow>
        files (snd (snd ?m)) =
          files (append_file w1 ?f (log_entry old cur (strftime (clock e (logs w1)))))) \<and>
     (contains (ustr ''-> '' @ repr_f cur @ [32, euro]) (last_line_of w1 ?f) \<longrightarrow>
        files (snd (snd ?m)) = files w1) \<and>
     sent (snd (snd ?m)) =
       (if f_ge_int (f_abs (f_sub cur old)) 10
        then sent w1 @ [(IFTTT_URL cfg,
               [(ustr ''value1'', name), (ustr ''value2'', repr_f cur @ [32, euro]),
                (ustr ''value3'', repr_f old @ [32, euro])])]
        else sent w1)"
    unfolding m using w2 w3 by (simp add: check_price_change_some)
qed

theorem monitor_item_on_change_counterexample:
  "main config0 env_updown 0 world_logged = (None, [skin \<mapsto> Fin 100], world_logged\<lparr>gets := 1\<rparr>) \<and>
   get_price env_updown skin_url default_retries (world_logged\<lparr>gets := 1\<rparr>) =
     (Some (Fin 105), world_logged\<lparr>gets := 2\<rparr>) \<and>
   f_ne (Fin 105) (Fin 100) \<and>
   main config0 env_updown 1 world_logged =
     (None, [skin \<mapsto> Fin 105], world_logged\<lparr>gets := 2, logs := 1\<rparr>) \<and>
   files (world_logged\<lparr>gets := 2, logs := 1\<rparr>) = files world_logged"
proof -
  have init: "main config0 env_updown 0 world_logged =
      (None, [skin \<mapsto> Fin 100], world_logged\<lparr>gets := 1\<rparr>)"
    by (simp add: main_def main_init_def config0_def logged_init)
  have "main config0 env_updown (Suc 0) world_logged =
      (None, [skin \<mapsto> Fin 105], world_logged\<lparr>gets := 2, logs := 1\<rparr>)"
    by (simp only: main_one_item logged_init logged_first prod.case option.case
        monitor_cycles.simps)
  then have one: "main config0 env_updown 1 world_logged =
      (None, [skin \<mapsto> Fin 105], world_logged\<lparr>gets := 2, logs := 1\<rparr>)"
    by (simp only: One_nat_def)
  show ?thesis
    using init logged_get one by (simp add: f_ne_def)
qed


theorem monitor_item_on_change_witness:
  "get_price (env_jump (Status 200)) skin_url default_retries world0 =
     (Some (Fin 112), world0\<lparr>gets := 1\<rparr>) \<and>
   f_ne (Fin 112) (Fin 100) \<and>
   fst (monitor_item config0 (env_jump (Status 200)) ([skin \<mapsto> Fin 100], world0)
          (skin, skin_url)) = None \<and>
   fst (snd (monitor_item config0 (env_jump (Status 200)) ([skin \<mapsto> Fin 100], world0)
          (skin, skin_url))) = [skin \<mapsto> Fin 112] \<and>
   files (snd (snd (monitor_item config0 (env_jump (Status 200)) ([skin \<mapsto> Fin 100], world0)
          (skin, skin_url)))) (ustr ''logs/AK-47__Redline.txt'') =
     Some (ustr ''100.0 '' @ [euro] @ ustr '' (2024-03-07 09:05:00) -> 112.0 '' @ [euro] @
           ustr '' (2024-03-07 09:05:00)'' @ [newline]) \<and>
   sent (snd (snd (monitor_item config0 (env_jump (Status 200)) ([skin \<mapsto> Fin 100], world0)
          (skin, skin_url)))) =
     [(IFTTT_URL config0,
       [(ustr ''value1'', skin), (ustr ''value2'', ustr ''112.0 '' @ [euro]),
        (ustr ''value3'', ustr ''100.0 '' @ [euro])])] \<and>
   get_price env_updown skin_url default_retries (world_logged\<lparr>gets := 1\<rparr>) =
     (Some (Fin 105), world_logged\<lparr>gets := 2\<rparr>) \<and>
   f_ne (Fin 105) (Fin 100) \<and>
   fst (monitor_item config0 env_updown ([skin \<mapsto> Fin 100], world_logged\<lparr>gets := 1\<rparr>)
          (skin, skin_url)) = None \<and>
   fst (snd (monitor_item config0 env_updown ([skin \<mapsto> Fin 100], world_logged\<lparr>gets := 1\<rparr>)
          (skin, skin_url))) = [skin \<mapsto> Fin 105] \<and>
   files (snd (snd (monitor_item config0 env_updown
          ([skin \<mapsto> Fin 100], world_logged\<lparr>gets := 1\<rparr>) (skin, skin_url)))) =
     files world_logged \<and>
   sent (snd (snd (monitor_item config0 env_updown
          ([skin \<mapsto> Fin 100], world_logged\<lparr>gets := 1\<rparr>) (skin, skin_url)))) = [] \<and>
   fst (monitor_item config0 env_updown ([skin \<mapsto> Fin 100], world_cr\<lparr>gets := 1\<rparr>)
          (skin, skin_url)) = None \<and>
   files (snd (snd (monitor_item config0 env_updown
             ([skin \<mapsto> Fin 100], world_cr\<lparr>gets := 1\<rparr>) (skin, skin_url))))
        (ustr ''logs/AK-47__Redline.txt'') =
      Some (ustr ''100.0 '' @ [euro] @ ustr '' (2024-03-06 18:30:00) -> 105.0 '' @ [euro] @
            ustr '' (2024-03-06 18:30:00)'' @ [carriage_return] @ ustr ''checked'' @ [newline] @
            ustr ''100.0 '' @ [euro] @ ustr '' (2024-03-07 09:05:00) -> 105.0 '' @ [euro] @
            ustr '' (2024-03-07 09:05:00)'' @ [newline])"
proof -
  let ?e = "env_jump (Status 200)"
  let ?w1 = "world0\<lparr>gets := 1\<rparr>"
  let ?m = "monitor_item config0 ?e ([skin \<mapsto> Fin 100], world0) (skin, skin_url)"
  have gp: "get_price ?e skin_url default_retries world0 = (Some (Fin 112), ?w1)"
    by (rule get_price_jump)
  have old: "Fin 100 = (case [skin \<mapsto> Fin 100] skin of None \<Rightarrow> Fin 112 | Some p \<Rightarrow> p)"
    by simp
  have ne: "f_ne (Fin 112) (Fin 100)"
    by (simp add: f_ne_def)
  have fault: "\<not> fs_fault ?e (logs ?w1)"
    by (simp add: env_jump_get)
  have loud: "?m = (if http_post ?e (length (sent ?w1)) = PostRaises
      then (Some RequestException, [skin \<mapsto> Fin 100],
            snd (send_ifttt_notification config0 ?e skin (Fin 112) (Fin 100)
                   (snd (log_price_change config0 ?e skin (Fin 100) (Fin 112) ?w1))))
      else (None, [skin \<mapsto> Fin 100](skin \<mapsto> Fin 112),
            snd (send_ifttt_notification config0 ?e skin (Fin 112) (Fin 100)
                   (snd (log_price_change config0 ?e skin (Fin 100) (Fin 112) ?w1)))))"
    by (rule monitor_item_loud
        [of ?e skin_url world0 "Fin 112" ?w1 "Fin 100" "[skin \<mapsto> Fin 100]" skin config0,
          OF gp old ne fault check_100_112])
  have ok: "fst ?m = None"
    by (simp add: loud env_jump_get)
  have fresh: "\<not> contains (repr_f (Fin 112) @ [32, euro])
      (last_line_of ?w1 (log_file_name config0 skin))"
    by (simp add: last_line_world0)
  have big: "f_ge_int (f_abs (f_sub (Fin 112) (Fin 100))) 10"
    using check_100_112 by (simp add: check_price_change_some)
  have entry: "log_entry (Fin 100) (Fin 112) (strftime (clock ?e (logs ?w1))) =
      ustr ''100.0 '' @ [euro] @ ustr '' (2024-03-07 09:05:00) -> 112.0 '' @ [euro] @
      ustr '' (2024-03-07 09:05:00)'' @ [newline]"
    by (simp del: repr_f.simps
        add: log_entry_def world0_def env_jump_get(4) [of _ "\<lambda>n. Raises" "\<lambda>n. Status 200"]
          strftime_example repr_f_100 repr_f_112)
      (simp add: ustr_def)
  have tags: "repr_f (Fin 112) @ [32, euro] = ustr ''112.0 '' @ [euro]"
    "repr_f (Fin 100) @ [32, euro] = ustr ''100.0 '' @ [euro]"
    by (simp_all del: repr_f.simps add: repr_f_100 repr_f_112, simp_all add: ustr_def)
  note inst = monitor_item_on_change
    [of ?e skin_url world0 "Fin 112" ?w1 "Fin 100" "[skin \<mapsto> Fin 100]" skin config0]
  have res: "fst (snd ?m) = [skin \<mapsto> Fin 100](skin \<mapsto> Fin 112)"
    "files (snd (snd ?m)) =
       files (append_file ?w1 (log_file_name config0 skin)
                (log_entry (Fin 100) (Fin 112) (strftime (clock ?e (logs ?w1)))))"
    "sent (snd (snd ?m)) = sent ?w1 @ [(IFTTT_URL config0,
       [(ustr ''value1'', skin), (ustr ''value2'', repr_f (Fin 112) @ [32, euro]),
        (ustr ''value3'', repr_f (Fin 100) @ [32, euro])])]"
    using inst gp old ne ok fresh big by simp_all
  have written: "files (snd (snd ?m)) (ustr ''logs/AK-47__Redline.txt'') =
      Some (ustr ''100.0 '' @ [euro] @ ustr '' (2024-03-07 09:05:00) -> 112.0 '' @ [euro] @
            ustr '' (2024-03-07 09:05:00)'' @ [newline])"
    unfolding res(2) entry log_file_name_skin
    by (simp add: append_file_def world0_def)
  have posts: "sent (snd (snd ?m)) = [(IFTTT_URL config0,
       [(ustr ''value1'', skin), (ustr ''value2'', ustr ''112.0 '' @ [euro]),
        (ustr ''value3'', ustr ''100.0 '' @ [euro])])]"
    unfolding res(3) tags by (simp add: world0_def)
  let ?v1 = "world_logged\<lparr>gets := 1\<rparr>"
  let ?v2 = "world_logged\<lparr>gets := 2\<rparr>"
  let ?n = "monitor_item config0 env_updown ([skin \<mapsto> Fin 100], ?v1) (skin, skin_url)"
  have old': "Fin 100 = (case [skin \<mapsto> Fin 100] skin of None \<Rightarrow> Fin 105 | Some p \<Rightarrow> p)"
    by simp
  have ne': "f_ne (Fin 105) (Fin 100)"
    by (simp add: f_ne_def)
  have ok': "fst ?n = None"
    by (simp only: logged_first fst_conv)
  have small: "\<not> f_ge_int (f_abs (f_sub (Fin 105) (Fin 100))) 10"
    using check_100_105 by (simp add: check_price_change_some)
  note inst' = monitor_item_on_change
    [of env_updown skin_url ?v1 "Fin 105" ?v2 "Fin 100" "[skin \<mapsto> Fin 100]" skin config0]
  have res': "fst (snd ?n) = [skin \<mapsto> Fin 100](skin \<mapsto> Fin 105)"
    "files (snd (snd ?n)) = files ?v2" "sent (snd (snd ?n)) = sent ?v2"
    using inst' logged_get old' ne' ok' logged_last_line [of 2] small by simp_all
  have quiet: "fst (snd ?n) = [skin \<mapsto> Fin 105]" "files (snd (snd ?n)) = files world_logged"
    "sent (snd (snd ?n)) = []"
    unfolding res' by (simp_all add: world_logged_def world0_def)
  have c3_files: "files (snd (snd (monitor_item config0 env_updown
          ([skin \<mapsto> Fin 100], world_cr\<lparr>gets := 1\<rparr>) (skin, skin_url))))
     (ustr ''logs/AK-47__Redline.txt'') =
   Some (ustr ''100.0 '' @ [euro] @ ustr '' (2024-03-06 18:30:00) -> 105.0 '' @ [euro] @
         ustr '' (2024-03-06 18:30:00)'' @ [carriage_return] @ ustr ''checked'' @ [newline] @
         ustr ''100.0 '' @ [euro] @ ustr '' (2024-03-07 09:05:00) -> 105.0 '' @ [euro] @
         ustr '' (2024-03-07 09:05:00)'' @ [newline])"
  proof -
    let ?u1 = "world_cr\<lparr>gets := 1\<rparr>"
    let ?u2 = "world_cr\<lparr>gets := 2\<rparr>"
    let ?k = "monitor_item config0 env_updown ([skin \<mapsto> Fin 100], ?u1) (skin, skin_url)"
    have old'': "Fin 100 = (case [skin \<mapsto> Fin 100] skin of None \<Rightarrow> Fin 105 | Some p \<Rightarrow> p)"
      by simp
    have ne'': "f_ne (Fin 105) (Fin 100)"
      by (simp add: f_ne_def)
    note inst'' = monitor_item_on_change
      [of env_updown skin_url ?u1 "Fin 105" ?u2 "Fin 100" "[skin \<mapsto> Fin 100]" skin config0]
    have "files (snd (snd ?k)) =
        files (append_file ?u2 (log_file_name config0 skin)
                 (log_entry (Fin 100) (Fin 105) (strftime (clock env_updown (logs ?u2)))))"
      using inst'' cr_get old'' ne'' cr_first world_cr_fresh by simp
    moreover have "log_entry (Fin 100) (Fin 105) (strftime (clock env_updown (logs ?u2))) =
        ustr ''100.0 '' @ [euro] @ ustr '' (2024-03-07 09:05:00) -> 105.0 '' @ [euro] @
        ustr '' (2024-03-07 09:05:00)'' @ [newline]"
      using entry_100_105 by (simp add: env_updown_def world_cr_def world0_def)
    ultimately show ?thesis
      by (simp only: log_file_name_skin) (simp add: append_file_def world_cr_def world0_def)
  qed
  have run: "get_price (env_jump (Status 200)) skin_url default_retries world0 =
     (Some (Fin 112), world0\<lparr>gets := 1\<rparr>) \<and>
   f_ne (Fin 112) (Fin 100) \<and>
   fst (monitor_item config0 (env_jump (Status 200)) ([skin \<mapsto> Fin 100], world0)
          (skin, skin_url)) = None \<and>
   fst (snd (monitor_item config0 (env_jump (Status 200)) ([skin \<mapsto> Fin 100], world0)
          (skin, skin_url))) = [skin \<mapsto> Fin 112] \<and>
   files (snd (snd (monitor_item config0 (env_jump (Status 200)) ([skin \<mapsto> Fin 100], world0)
          (skin, skin_url)))) (ustr ''logs/AK-47__Redline.txt'') =
     Some (ustr ''100.0 '' @ [euro] @ ustr '' (2024-03-07 09:05:00) -> 112.0 '' @ [euro] @
           ustr '' (2024-03-07 09:05:00)'' @ [newline]) \<and>
   sent (snd (snd (monitor_item config0 (env_jump (Status 200)) ([skin \<mapsto> Fin 100], world0)
          (skin, skin_url)))) =
     [(IFTTT_URL config0,
       [(ustr ''value1'', skin), (ustr ''value2'', ustr ''112.0 '' @ [euro]),
        (ustr ''value3'', ustr ''100.0 '' @ [euro])])] \<and>
   get_price env_updown skin_url default_retries (world_logged\<lparr>gets := 1\<rparr>) =
     (Some (Fin 105), world_logged\<lparr>gets := 2\<rparr>) \<and>
   f_ne (Fin 105) (Fin 100) \<and>
   fst (monitor_item config0 env_updown ([skin \<mapsto> Fin 100], world_logged\<lparr>gets := 1\<rparr>)
          (skin, skin_url)) = None \<and>
   fst (snd (monitor_item config0 env_updown ([skin \<mapsto> Fin 100], world_logged\<lparr>gets := 1\<rparr>)
          (skin, skin_url))) = [skin \<mapsto> Fin 105] \<and>
   files (snd (snd (monitor_item config0 env_updown
          ([skin \<mapsto> Fin 100], world_logged\<lparr>gets := 1\<rparr>) (skin, skin_url)))) =
     files world_logged \<and>
   sent (snd (snd (monitor_item config0 env_updown
          ([skin \<mapsto> Fin 100], world_logged\<lparr>gets := 1\<rparr>) (skin, skin_url)))) = []"
    using gp ne ok res(1) written posts logged_get ne' ok' quiet by simp
  have cr: "fst (monitor_item config0 env_updown ([skin \<mapsto> Fin 100], world_cr\<lparr>gets := 1\<rparr>)
       (skin, skin_url)) = None \<and>
files (snd (snd (monitor_item config0 env_updown
          ([skin \<mapsto> Fin 100], world_cr\<lparr>gets := 1\<rparr>) (skin, skin_url))))
     (ustr ''logs/AK-47__Redline.txt'') =
   Some (ustr ''100.0 '' @ [euro] @ ustr '' (2024-03-06 18:30:00) -> 105.0 '' @ [euro] @
         ustr '' (2024-03-06 18:30:00)'' @ [carriage_return] @ ustr ''checked'' @ [newline] @
         ustr ''100.0 '' @ [euro] @ ustr '' (2024-03-07 09:05:00) -> 105.0 '' @ [euro] @
         ustr '' (2024-03-07 09:05:00)'' @ [newline])"
    using cr_first c3_files by simp
  show ?thesis
    using run cr by blast
qed


text \<open>
  C2. An item whose first fetch failed has no last-known price. In the monitoring loop a
  successful fetch for such an item is compared with itself, so no change is seen, and
  the assignment to \<open>base_prices\<close> sits inside the branch for a change: the fetched price
  is not stored. The item keeps having no baseline, whatever its price does later.
\<close>

theorem missing_baseline_never_stored:
  "bp name = None \<and> get_price e url default_retries w = (Some cur, w1) \<and> cur \<noteq> NaN \<longrightarrow>
     monitor_item cfg e (bp, w) (name, url) = (None, bp, w1)"
proof
  assume h: "bp name = None \<and> get_price e url default_retries w = (Some cur, w1) \<and> cur \<noteq> NaN"
  then have "\<not> f_ne cur (case bp name of None \<Rightarrow> cur | Some p \<Rightarrow> p)"
    by (simp add: f_ne_same)
  then show "monitor_item cfg e (bp, w) (name, url) = (None, bp, w1)"
    using h monitor_item_same [of e url w cur w1 bp name cfg] by blast
qed

theorem missing_baseline_never_stored_witness:
  "main config0 env_late 1 world0 = (None, Map.empty, world0\<lparr>gets := 4\<rparr>) \<and>
   main config0 env_late 2 world0 = (None, Map.empty, world0\<lparr>gets := 5\<rparr>)"
proof -
  have gp1: "get_price env_late skin_url default_retries (world0\<lparr>gets := 3\<rparr>) =
      (Some (Fin 5), world0\<lparr>gets := 4\<rparr>)"
    using get_price_first [of env_late "world0\<lparr>gets := 3\<rparr>" skin_url "Some (Fin 5)"]
    by (simp add: env_late_get attempt_5)
  have gp2: "get_price env_late skin_url default_retries (world0\<lparr>gets := 4\<rparr>) =
      (Some (Fin 20), world0\<lparr>gets := 5\<rparr>)"
    using get_price_first [of env_late "world0\<lparr>gets := 4\<rparr>" skin_url "Some (Fin 20)"]
    by (simp add: env_late_get attempt_20)
  have first: "monitor_item config0 env_late (Map.empty, world0\<lparr>gets := 3\<rparr>) (skin, skin_url) =
      (None, Map.empty, world0\<lparr>gets := 4\<rparr>)"
    using missing_baseline_never_stored
      [of Map.empty skin env_late skin_url "world0\<lparr>gets := 3\<rparr>" "Fin 5" "world0\<lparr>gets := 4\<rparr>" config0]
      gp1
    by simp
  have second: "monitor_item config0 env_late (Map.empty, world0\<lparr>gets := 4\<rparr>) (skin, skin_url) =
      (None, Map.empty, world0\<lparr>gets := 5\<rparr>)"
    using missing_baseline_never_stored
      [of Map.empty skin env_late skin_url "world0\<lparr>gets := 4\<rparr>" "Fin 20" "world0\<lparr>gets := 5\<rparr>" config0]
      gp2
    by simp
  have fuel: "main config0 env_late 1 world0 = main config0 env_late (Suc 0) world0"
    "main config0 env_late 2 world0 = main config0 env_late (Suc (Suc 0)) world0"
    by (simp_all only: One_nat_def numeral_2_eq_2)
  have "main config0 env_late (Suc 0) world0 = (None, Map.empty, world0\<lparr>gets := 4\<rparr>)"
    by (simp only: main_one_item late_init first prod.case option.case monitor_cycles.simps)
  moreover have "main config0 env_late (Suc (Suc 0)) world0 =
      (None, Map.empty, world0\<lparr>gets := 5\<rparr>)"
    by (simp only: main_one_item monitor_cycles_one_item late_init first second prod.case
        option.case monitor_cycles.simps(1))
  ultimately show ?thesis
    by (simp only: fuel simp_thms)
qed

text \<open>
  C6. \<open>send_error_notification\<close> catches every exception of the POST request.
  \<open>send_ifttt_notification\<close> has no handler: when the request raises, the exception
  leaves the function and the monitoring loop.
\<close>

theorem send_ifttt_notification_raises:
  "(http_post e (length (sent w)) = PostRaises \<longrightarrow>
      fst (send_ifttt_notification cfg e name new old w) = Some RequestException) \<and>
   fst (send_error_notification cfg e msg w) = None \<and>
   (get_price e url default_retries w = (Some cur, w1) \<and> bp name = Some old \<and>
    f_ne cur old \<and> \<not> fs_fault e (logs w1) \<and>
    check_price_change (Some old) (Some cur) 10 \<and>
    http_post e (length (sent w1)) = PostRaises \<longrightarrow>
      fst (monitor_item cfg e (bp, w) (name, url)) = Some RequestException)"
proof (intro conjI impI)
  show "fst (send_ifttt_notification cfg e name new old w) = Some RequestException"
    if "http_post e (length (sent w)) = PostRaises"
    using that by (simp add: send_ifttt_notification_fst)
  show "fst (send_error_notification cfg e msg w) = None"
    by (rule send_error_notification_fst)
  assume h: "get_price e url default_retries w = (Some cur, w1) \<and> bp name = Some old \<and>
    f_ne cur old \<and> \<not> fs_fault e (logs w1) \<and>
    check_price_change (Some old) (Some cur) 10 \<and>
    http_post e (length (sent w1)) = PostRaises"
  then have gp: "get_price e url default_retries w = (Some cur, w1)"
    and base: "bp name = Some old" and ne: "f_ne cur old"
    and fault: "\<not> fs_fault e (logs w1)"
    and big: "check_price_change (Some old) (Some cur) 10"
    and post: "http_post e (length (sent w1)) = PostRaises"
    by blast+
  have old: "old = (case bp name of None \<Rightarrow> cur | Some p \<Rightarrow> p)"
    by (simp add: base)
  have "monitor_item cfg e (bp, w) (name, url) =
      (if http_post e (length (sent w1)) = PostRaises
       then (Some RequestException, bp,
             snd (send_ifttt_notification cfg e name cur old
                    (snd (log_price_change cfg e name old cur w1))))
       else (None, bp(name \<mapsto> cur),
             snd (send_ifttt_notification cfg e name cur old
                    (snd (log_price_change cfg e name old cur w1)))))"
    by (rule monitor_item_loud [of e url w cur w1 old bp name cfg, OF gp old ne fault big])
  then show "fst (monitor_item cfg e (bp, w) (name, url)) = Some RequestException"
    by (simp add: post)
qed

theorem send_ifttt_notification_raises_witness:
  "http_post (env_jump PostRaises) (length (sent world0)) = PostRaises \<and>
   fst (send_ifttt_notification config0 (env_jump PostRaises) skin (Fin 112) (Fin 100) world0) =
     Some RequestException \<and>
   get_price (env_jump PostRaises) skin_url default_retries world0 =
     (Some (Fin 112), world0\<lparr>gets := 1\<rparr>) \<and>
   check_price_change (Some (Fin 100)) (Some (Fin 112)) 10 \<and>
   fst (monitor_item config0 (env_jump PostRaises) ([skin \<mapsto> Fin 100], world0) (skin, skin_url)) =
     Some RequestException \<and>
   fst (monitor_items config0 (env_jump PostRaises) ([skin \<mapsto> Fin 100], world0)
          [(skin, skin_url)]) =
     Some RequestException"
proof -
  let ?e = "env_jump PostRaises"
  have post: "http_post ?e (length (sent world0)) = PostRaises"
    "http_post ?e (length (sent (world0\<lparr>gets := 1\<rparr>))) = PostRaises"
    by (simp_all add: env_jump_get)
  have gp: "get_price ?e skin_url default_retries world0 = (Some (Fin 112), world0\<lparr>gets := 1\<rparr>)"
    by (rule get_price_jump)
  have ne: "f_ne (Fin 112) (Fin 100)"
    by (simp add: f_ne_def)
  have fault: "\<not> fs_fault ?e (logs (world0\<lparr>gets := 1\<rparr>))"
    by (simp add: env_jump_get)
  have base: "[skin \<mapsto> Fin 100] skin = Some (Fin 100)"
    by simp
  note inst = send_ifttt_notification_raises
    [of ?e world0 config0 skin "Fin 112" "Fin 100" "[]" skin_url "Fin 112" "world0\<lparr>gets := 1\<rparr>"
      "[skin \<mapsto> Fin 100]"]
  have one: "fst (send_ifttt_notification config0 ?e skin (Fin 112) (Fin 100) world0) =
      Some RequestException"
    using inst post(1) by blast
  have item: "fst (monitor_item config0 ?e ([skin \<mapsto> Fin 100], world0) (skin, skin_url)) =
      Some RequestException"
    using inst gp base ne fault check_100_112 post(2) by blast
  then have "fst (monitor_items config0 ?e ([skin \<mapsto> Fin 100], world0) [(skin, skin_url)]) =
      Some RequestException"
    by (cases "monitor_item config0 ?e ([skin \<mapsto> Fin 100], world0) (skin, skin_url)") simp
  then show ?thesis
    using post(1) one gp check_100_112 item by simp
qed

end
